theory Spec2Isabelle
  imports Main "HOL-Library.Word"
begin

section \<open>Data model\<close>

text \<open>
  \<^verbatim>\<open>size_t\<close> and \<^verbatim>\<open>UInt64\<close> are 64-bit unsigned integers: addition wraps, comparison is
  unsigned. \<^verbatim>\<open>Int64\<close> is the same 64 bits read in two's complement; its comparisons are the
  signed ones (\<open>word_sle\<close>).
\<close>

type_synonym size_t = "64 word"
type_synonym Int64 = "64 word"

text \<open>A data type is represented by what \<^verbatim>\<open>IDataType::getName\<close> returns.\<close>

type_synonym DataType = string

text \<open>
  A column (\<^verbatim>\<open>IColumn\<close>) is the sequence of its values; \<^verbatim>\<open>column->size()\<close> is the number of
  values as a \<^verbatim>\<open>size_t\<close>. \<^verbatim>\<open>IColumn::byteSize\<close> is virtual and differs per column class, so
  every operation that needs it takes it as the parameter \<open>byteSize\<close>.
\<close>

type_synonym 'a Column = "'a list"

definition column_size :: "'a Column \<Rightarrow> size_t" where
  "column_size c = of_nat (length c)"

datatype 'a ColumnWithTypeAndName =
  ColumnWithTypeAndName (column: "'a Column") (type: DataType) (name: string)

text \<open>
  Modelled from the spec: \<^verbatim>\<open>Core/Block.h\<close> is not among the sources. A block is the ordered
  sequence of its named columns (spec section 3, Batch); the block with no columns is the
  end-of-stream sentinel, and \<^verbatim>\<open>operator bool\<close> of a block says that it has columns.
  \<^verbatim>\<open>rows()\<close> is the size of the first column, 0 when there is none.
\<close>

type_synonym 'a Block = "'a ColumnWithTypeAndName list"

definition Block_bool :: "'a Block \<Rightarrow> bool" where
  "Block_bool b \<longleftrightarrow> b \<noteq> []"

definition Block_rows :: "'a Block \<Rightarrow> size_t" where
  "Block_rows b = (case b of [] \<Rightarrow> 0 | c # _ \<Rightarrow> column_size (column c))"

definition Block_getColumns :: "'a Block \<Rightarrow> 'a Column list" where
  "Block_getColumns b = map column b"

definition Block_getDataTypes :: "'a Block \<Rightarrow> DataType list" where
  "Block_getDataTypes b = map type b"

text \<open>
  Modelled from the spec: \<^verbatim>\<open>blocksHaveEqualStructure\<close> (\<^verbatim>\<open>Core/Block.cpp\<close>) is not among the
  sources. Spec section 7 names a schema mismatch as a difference in column count, order or
  types; the names belong to the order of the columns.
\<close>

definition blocksHaveEqualStructure :: "'a Block \<Rightarrow> 'a Block \<Rightarrow> bool" where
  "blocksHaveEqualStructure a b \<longleftrightarrow> map type a = map type b \<and> map name a = map name b"

text \<open>
  How a call can end other than by returning. \<open>SIZES_OF_COLUMNS_DOESNT_MATCH\<close> is the
  exception thrown by \<^verbatim>\<open>SquashingTransform::isEnoughSize\<close>, \<open>LOGICAL_ERROR\<close> the refusal of
  the chunk constructor, \<open>ASSERTION_FAILED\<close> the \<^verbatim>\<open>assert\<close> in \<^verbatim>\<open>SquashingTransform::append\<close>.
  The last two stand for undefined behaviour: an unchecked read past the end of a vector, and
  a member access through a null pointer.
\<close>

datatype error =
    SIZES_OF_COLUMNS_DOESNT_MATCH
  | LOGICAL_ERROR
  | ASSERTION_FAILED
  | OUT_OF_BOUNDS_READ
  | NULL_POINTER_DEREFERENCE

section \<open>Threshold policy\<close>

text \<open>
  The three classes \<^verbatim>\<open>SquashingTransform\<close>, \<^verbatim>\<open>BalanceTransform\<close> and
  \<^verbatim>\<open>BalanceBlockTransform\<close> each carry the same \<^verbatim>\<open>isEnoughSize(size_t rows, size_t bytes)\<close>.
\<close>

definition isEnoughSize :: "size_t \<Rightarrow> size_t \<Rightarrow> size_t \<Rightarrow> size_t \<Rightarrow> bool" where
  "isEnoughSize min_block_size_rows min_block_size_bytes rows bytes \<longleftrightarrow>
     (min_block_size_rows = 0 \<and> min_block_size_bytes = 0)
   \<or> (min_block_size_rows \<noteq> 0 \<and> rows \<ge> min_block_size_rows)
   \<or> (min_block_size_bytes \<noteq> 0 \<and> bytes \<ge> min_block_size_bytes)"

section \<open>SquashingTransform\<close>

text \<open>
  Every class of the file starts with the same two members \<^verbatim>\<open>min_block_size_rows\<close> and
  \<^verbatim>\<open>min_block_size_bytes\<close>, set by the constructor and never written again.
\<close>

record Thresholds =
  min_block_size_rows :: size_t
  min_block_size_bytes :: size_t

record 'a SquashingTransform = Thresholds +
  accumulated_block :: "'a Block"

text \<open>
  The loop of \<^verbatim>\<open>SquashingTransform::isEnoughSize(const Block &)\<close>: \<open>rows\<close> and \<open>bytes\<close> are
  the two locals, the list is what remains of the block.
\<close>

fun isEnoughSize_loop ::
  "('a Column \<Rightarrow> size_t) \<Rightarrow> 'a Block \<Rightarrow> size_t \<Rightarrow> size_t \<Rightarrow> error + (size_t \<times> size_t)" where
  "isEnoughSize_loop byteSize [] rows bytes = Inr (rows, bytes)"
| "isEnoughSize_loop byteSize (c # cs) rows bytes =
     (if rows = 0 then
        isEnoughSize_loop byteSize cs (column_size (column c)) (bytes + byteSize (column c))
      else if rows \<noteq> column_size (column c) then Inl SIZES_OF_COLUMNS_DOESNT_MATCH
      else isEnoughSize_loop byteSize cs rows (bytes + byteSize (column c)))"

definition SquashingTransform_isEnoughSize ::
  "('a Column \<Rightarrow> size_t) \<Rightarrow> 'a SquashingTransform \<Rightarrow> 'a Block \<Rightarrow> error + bool" where
  "SquashingTransform_isEnoughSize byteSize st block =
     (case isEnoughSize_loop byteSize block 0 0 of
        Inl e \<Rightarrow> Inl e
      | Inr (rows, bytes) \<Rightarrow>
          Inr (isEnoughSize (min_block_size_rows st) (min_block_size_bytes st) rows bytes))"

text \<open>
  \<^verbatim>\<open>insertRangeFrom(*source_column, 0, source_column->size())\<close> on the column at position
  \<open>i\<close>: all values of the source column are put after the ones already there.
\<close>

definition insertRangeFrom_at :: "'a Block \<Rightarrow> 'a Column list \<Rightarrow> nat \<Rightarrow> 'a Block" where
  "insertRangeFrom_at acc source i =
     acc[i := ColumnWithTypeAndName (column (acc ! i) @ source ! i) (type (acc ! i)) (name (acc ! i))]"

text \<open>The loop \<^verbatim>\<open>for (size_t i = 0, size = accumulated_block.columns(); i < size; ++i)\<close>.\<close>

definition append_columns :: "'a Block \<Rightarrow> 'a Column list \<Rightarrow> 'a Block" where
  "append_columns acc source = foldl (\<lambda>blk i. insertRangeFrom_at blk source i) acc [0..<length acc]"

text \<open>
  \<^verbatim>\<open>SquashingTransform::append\<close>. The \<^verbatim>\<open>assert\<close> is a branch of its own; where it holds the
  two blocks have the same number of columns, so \<^verbatim>\<open>getByPosition(i)\<close> stays in range. A build
  without assertions goes on where this branch stops, so nothing below is concluded from a
  call ending in \<open>ASSERTION_FAILED\<close>.
\<close>

definition SquashingTransform_append ::
  "'a SquashingTransform \<Rightarrow> 'a Block \<Rightarrow> error + 'a SquashingTransform" where
  "SquashingTransform_append st input_block =
     (if \<not> Block_bool (accumulated_block st) then
        Inr (st\<lparr>accumulated_block := input_block\<rparr>)
      else if \<not> blocksHaveEqualStructure input_block (accumulated_block st) then
        Inl ASSERTION_FAILED
      else
        Inr (st\<lparr>accumulated_block :=
                  append_columns (accumulated_block st) (Block_getColumns input_block)\<rparr>))"

text \<open>
  \<^verbatim>\<open>SquashingTransform::addImpl\<close>: the returned block and the object after the call. An
  exception leaves through \<open>Inl\<close>.
\<close>

definition SquashingTransform_addImpl ::
  "('a Column \<Rightarrow> size_t) \<Rightarrow> 'a SquashingTransform \<Rightarrow> 'a Block
     \<Rightarrow> error + ('a Block \<times> 'a SquashingTransform)" where
  "SquashingTransform_addImpl byteSize st input_block =
     (if \<not> Block_bool input_block then
        Inr (accumulated_block st, st\<lparr>accumulated_block := []\<rparr>)
      else
        case SquashingTransform_isEnoughSize byteSize st input_block of
          Inl e \<Rightarrow> Inl e
        | Inr True \<Rightarrow>
            (if \<not> Block_bool (accumulated_block st) then Inr (input_block, st)
             else Inr (accumulated_block st, st\<lparr>accumulated_block := input_block\<rparr>))
        | Inr False \<Rightarrow>
            (case SquashingTransform_isEnoughSize byteSize st (accumulated_block st) of
               Inl e \<Rightarrow> Inl e
             | Inr True \<Rightarrow> Inr (accumulated_block st, st\<lparr>accumulated_block := input_block\<rparr>)
             | Inr False \<Rightarrow>
                 (case SquashingTransform_append st input_block of
                    Inl e \<Rightarrow> Inl e
                  | Inr st' \<Rightarrow>
                      (case SquashingTransform_isEnoughSize byteSize st' (accumulated_block st') of
                         Inl e \<Rightarrow> Inl e
                       | Inr True \<Rightarrow> Inr (accumulated_block st', st'\<lparr>accumulated_block := []\<rparr>)
                       | Inr False \<Rightarrow> Inr ([], st')))))"

definition SquashingTransform_add ::
  "('a Column \<Rightarrow> size_t) \<Rightarrow> 'a SquashingTransform \<Rightarrow> 'a Block
     \<Rightarrow> error + ('a Block \<times> 'a SquashingTransform)" where
  "SquashingTransform_add byteSize st input_block = SquashingTransform_addImpl byteSize st input_block"

section \<open>Chunks and the deferred-squash marker\<close>

text \<open>
  Modelled from the spec: \<^verbatim>\<open>Processors/Chunk.h\<close> is not among the sources. A chunk is a
  batch without column names: its columns, its row count and an optional attached info (spec
  section 3). The two infos declared in the header of this component are \<^verbatim>\<open>ChunksToSquash\<close>
  and \<^verbatim>\<open>BlocksToSquash\<close>.
\<close>

datatype 'a Chunk =
  MkChunk (getColumns: "'a Column list") (getNumRows: size_t) (getChunkInfo: "'a ChunkInfo option")
and 'a ChunkInfo =
    ChunksToSquash (info_chunks: "'a Chunk list") (info_data_types: "DataType list")
  | BlocksToSquash (info_blocks: "'a Block list")

text \<open>
  Modelled from the spec: the constructor \<^verbatim>\<open>Chunk(columns, num_rows, info)\<close>. Every column of
  a batch holds exactly as many values as the batch has rows (spec section 3); columns that do
  not are refused.
\<close>

definition Chunk_ctor ::
  "'a Column list \<Rightarrow> size_t \<Rightarrow> 'a ChunkInfo option \<Rightarrow> error + 'a Chunk" where
  "Chunk_ctor columns num_rows info =
     (if \<forall>c \<in> set columns. column_size c = num_rows then Inr (MkChunk columns num_rows info)
      else Inl LOGICAL_ERROR)"

text \<open>
  Modelled from the spec: the observers of a chunk. A chunk is empty when it has neither rows
  nor columns (the sentinel of spec section 6); \<^verbatim>\<open>bytes()\<close> adds up the byte sizes of the
  columns; \<^verbatim>\<open>clone()\<close> gives an independent chunk with the same content (spec section 4.4,
  step 6).
\<close>

definition hasRows :: "'a Chunk \<Rightarrow> bool" where
  "hasRows chunk \<longleftrightarrow> getNumRows chunk > 0"

definition hasColumns :: "'a Chunk \<Rightarrow> bool" where
  "hasColumns chunk \<longleftrightarrow> getColumns chunk \<noteq> []"

definition Chunk_bool :: "'a Chunk \<Rightarrow> bool" where
  "Chunk_bool chunk \<longleftrightarrow> hasRows chunk \<or> hasColumns chunk"

definition hasChunkInfo :: "'a Chunk \<Rightarrow> bool" where
  "hasChunkInfo chunk \<longleftrightarrow> getChunkInfo chunk \<noteq> None"

definition getNumColumns :: "'a Chunk \<Rightarrow> nat" where
  "getNumColumns chunk = length (getColumns chunk)"

definition Chunk_bytes :: "('a Column \<Rightarrow> size_t) \<Rightarrow> 'a Chunk \<Rightarrow> size_t" where
  "Chunk_bytes byteSize chunk = foldl (\<lambda>res c. res + byteSize c) 0 (getColumns chunk)"

definition Chunk_clone :: "'a Chunk \<Rightarrow> 'a Chunk" where
  "Chunk_clone chunk = chunk"

text \<open>
  Modelled from the spec: \<^verbatim>\<open>Block::cloneEmptyColumns\<close> gives one empty column per column of
  the block (the schema template of spec section 6), and \<^verbatim>\<open>Block::insert\<close> at position
  \<^verbatim>\<open>columns()\<close> puts the new column last.
\<close>

definition Block_cloneEmptyColumns :: "'a Block \<Rightarrow> 'a Column list" where
  "Block_cloneEmptyColumns b = map (\<lambda>_. []) b"

definition Block_insert_last :: "'a Block \<Rightarrow> 'a ColumnWithTypeAndName \<Rightarrow> 'a Block" where
  "Block_insert_last b col = b @ [col]"

text \<open>
  Modelled from the spec: \<^verbatim>\<open>toString\<close> (\<^verbatim>\<open>IO/WriteHelpers.h\<close>) is not among the sources.
  The names made with it are only established on first use (spec section 4.5, step 2); here it
  writes the position in decimal.
\<close>

fun toString :: "nat \<Rightarrow> string" where
  "toString n =
     (if n < 10 then [''0123456789'' ! n]
      else toString (n div 10) @ [''0123456789'' ! (n mod 10)])"

section \<open>NewSquashingTransform\<close>

text \<open>The members of \<^verbatim>\<open>NewSquashingTransform\<close> are those of \<^verbatim>\<open>SquashingTransform\<close>.\<close>

type_synonym 'a NewSquashingTransform = "'a SquashingTransform"

text \<open>
  \<^verbatim>\<open>getInfoFromChunk\<close>: \<^verbatim>\<open>typeid_cast\<close> to a pointer gives the null pointer (\<open>None\<close>) for an
  info of any other class, and for no info.
\<close>

definition getInfoFromChunk :: "'a Chunk \<Rightarrow> 'a ChunkInfo option" where
  "getInfoFromChunk chunk =
     (case getChunkInfo chunk of
        Some (ChunksToSquash cs ts) \<Rightarrow> Some (ChunksToSquash cs ts)
      | _ \<Rightarrow> None)"

text \<open>
  The first loop of \<^verbatim>\<open>NewSquashingTransform::append\<close>, run when nothing is accumulated: column
  \<open>i\<close> of the chunk is inserted with the type \<^verbatim>\<open>data_types[i]\<close> and a name made of the type's
  name and the position.
\<close>

definition insert_chunk_column ::
  "'a Column list \<Rightarrow> DataType list \<Rightarrow> 'a Block \<Rightarrow> nat \<Rightarrow> 'a Block" where
  "insert_chunk_column columns data_types acc i =
     Block_insert_last acc
       (ColumnWithTypeAndName (columns ! i) (data_types ! i) (data_types ! i @ toString i))"

definition insert_chunk_columns :: "'a Block \<Rightarrow> 'a Chunk \<Rightarrow> DataType list \<Rightarrow> 'a Block" where
  "insert_chunk_columns acc chunk data_types =
     foldl (insert_chunk_column (getColumns chunk) data_types) acc [0..<getNumColumns chunk]"

text \<open>
  \<^verbatim>\<open>NewSquashingTransform::append\<close>. The vectors are indexed unchecked: the first loop reads
  \<^verbatim>\<open>data_types[i]\<close> for every column of the chunk, the second reads column \<open>i\<close> of the chunk
  for every accumulated column. A read past the end is the branch \<open>OUT_OF_BOUNDS_READ\<close>.
\<close>

definition NewSquashingTransform_append ::
  "'a NewSquashingTransform \<Rightarrow> 'a Chunk \<Rightarrow> DataType list \<Rightarrow> error + 'a NewSquashingTransform" where
  "NewSquashingTransform_append sq input_chunk data_types =
     (if getNumColumns input_chunk = 0 then Inr sq
      else if \<not> Block_bool (accumulated_block sq) then
        (if length data_types < getNumColumns input_chunk then Inl OUT_OF_BOUNDS_READ
         else Inr (sq\<lparr>accumulated_block :=
                       insert_chunk_columns (accumulated_block sq) input_chunk data_types\<rparr>))
      else if getNumColumns input_chunk < length (accumulated_block sq) then Inl OUT_OF_BOUNDS_READ
      else Inr (sq\<lparr>accumulated_block :=
                    append_columns (accumulated_block sq) (getColumns input_chunk)\<rparr>))"

text \<open>The loop of \<^verbatim>\<open>NewSquashingTransform::addImpl\<close> over \<^verbatim>\<open>info->chunks\<close>.\<close>

fun append_chunks ::
  "'a NewSquashingTransform \<Rightarrow> 'a Chunk list \<Rightarrow> DataType list \<Rightarrow> error + 'a NewSquashingTransform" where
  "append_chunks sq [] data_types = Inr sq"
| "append_chunks sq (c # cs) data_types =
     (case NewSquashingTransform_append sq c data_types of
        Inl e \<Rightarrow> Inl e
      | Inr sq' \<Rightarrow> append_chunks sq' cs data_types)"

text \<open>
  \<^verbatim>\<open>NewSquashingTransform::addImpl\<close>. The result of \<^verbatim>\<open>getInfoFromChunk\<close> is dereferenced
  unchecked.
\<close>

definition NewSquashingTransform_addImpl ::
  "'a NewSquashingTransform \<Rightarrow> 'a Chunk \<Rightarrow> error + ('a Block \<times> 'a NewSquashingTransform)" where
  "NewSquashingTransform_addImpl sq input_chunk =
     (if \<not> hasChunkInfo input_chunk then
        Inr (accumulated_block sq, sq\<lparr>accumulated_block := []\<rparr>)
      else
        case getInfoFromChunk input_chunk of
          None \<Rightarrow> Inl NULL_POINTER_DEREFERENCE
        | Some info \<Rightarrow>
            (case append_chunks sq (info_chunks info) (info_data_types info) of
               Inl e \<Rightarrow> Inl e
             | Inr sq' \<Rightarrow> Inr (accumulated_block sq', sq'\<lparr>accumulated_block := []\<rparr>)))"

definition NewSquashingTransform_add ::
  "'a NewSquashingTransform \<Rightarrow> 'a Chunk \<Rightarrow> error + ('a Block \<times> 'a NewSquashingTransform)" where
  "NewSquashingTransform_add sq input_chunk = NewSquashingTransform_addImpl sq input_chunk"

section \<open>The memory admission gate\<close>

text \<open>
  Modelled from the spec: \<^verbatim>\<open>Common/MemoryTracker.h\<close> is not among the sources. The tracker is
  only read (spec section 3, Memory Budget Snapshot): \<open>getHardLimit\<close> is the ceiling, 0 for
  none, and \<open>get\<close> is the current usage. Other threads change the usage, so \<open>get mt t\<close> is
  what the \<open>t\<close>-th read of the usage returns.
\<close>

record MemoryTracker =
  getHardLimit :: Int64
  get :: "nat \<Rightarrow> Int64"

text \<open>
  The loop of \<^verbatim>\<open>checkAndWaitMemoryAvailability\<close>; \<open>t\<close> counts the reads of the usage made so
  far. The loop has no bound: \<open>None\<close> is the call that never returns.
\<close>

partial_function (option) wait_for_memory ::
  "(nat \<Rightarrow> Int64) \<Rightarrow> Int64 \<Rightarrow> size_t \<Rightarrow> nat \<Rightarrow> nat option" where
  "wait_for_memory usage hard_limit bytes t =
     (if word_sle (hard_limit - usage t) bytes
      then wait_for_memory usage hard_limit bytes (Suc t)
      else Some (Suc t))"

declare wait_for_memory.simps [code]

text \<open>
  \<^verbatim>\<open>BalanceTransform::checkAndWaitMemoryAvailability\<close>. The local \<^verbatim>\<open>hard_limit\<close> is declared
  \<^verbatim>\<open>const auto hard_limit = memory_tracker->getHardLimit() != 0\<close>: it is the truth value of the
  comparison, and 1 where it enters the subtraction.
\<close>

definition BalanceTransform_checkAndWaitMemoryAvailability ::
  "MemoryTracker \<Rightarrow> size_t \<Rightarrow> nat \<Rightarrow> nat option" where
  "BalanceTransform_checkAndWaitMemoryAvailability memory_tracker bytes t =
     (let hard_limit = (getHardLimit memory_tracker \<noteq> 0) in
      if hard_limit then wait_for_memory (get memory_tracker) (of_bool hard_limit) bytes t
      else Some t)"

text \<open>\<^verbatim>\<open>BalanceBlockTransform::checkAndWaitMemoryAvailability\<close> has the same text.\<close>

definition BalanceBlockTransform_checkAndWaitMemoryAvailability ::
  "MemoryTracker \<Rightarrow> size_t \<Rightarrow> nat \<Rightarrow> nat option" where
  "BalanceBlockTransform_checkAndWaitMemoryAvailability memory_tracker bytes t =
     (let hard_limit = (getHardLimit memory_tracker \<noteq> 0) in
      if hard_limit then wait_for_memory (get memory_tracker) (of_bool hard_limit) bytes t
      else Some t)"

section \<open>BalanceTransform\<close>

text \<open>
  What a call does to the list \<^verbatim>\<open>chunks_to_merge_vec\<close> and when it enters the gate, in the
  order of execution.
\<close>

datatype 'a event =
    GateInvoked size_t
  | ListCleared
  | ListPushBack "'a Chunk"

text \<open>
  The members of \<^verbatim>\<open>BalanceTransform\<close> (its \<^verbatim>\<open>accumulated_block\<close> is never used);
  \<open>memory_tracker\<close> is the query-level tracker that the constructor looks up. \<open>reads\<close>
  counts the reads of the memory usage made so far and \<open>trace\<close> is the history of events;
  both only record what happened.
\<close>

record 'a BalanceTransform = Thresholds +
  chunks_to_merge_vec :: "'a Chunk list"
  header :: "'a Block"
  data_types :: "DataType list"
  memory_tracker :: MemoryTracker
  reads :: nat
  trace :: "'a event list"

text \<open>The loop of \<^verbatim>\<open>BalanceTransform::isEnoughSize(const std::vector<Chunk> &)\<close>.\<close>

fun sum_chunks ::
  "('a Column \<Rightarrow> size_t) \<Rightarrow> 'a Chunk list \<Rightarrow> size_t \<Rightarrow> size_t \<Rightarrow> size_t \<times> size_t" where
  "sum_chunks byteSize [] rows bytes = (rows, bytes)"
| "sum_chunks byteSize (chunk # cs) rows bytes =
     sum_chunks byteSize cs (rows + getNumRows chunk) (bytes + Chunk_bytes byteSize chunk)"

definition BalanceTransform_isEnoughSize ::
  "('a Column \<Rightarrow> size_t) \<Rightarrow> 'a BalanceTransform \<Rightarrow> 'a Chunk list
     \<Rightarrow> (bool \<times> 'a BalanceTransform) option" where
  "BalanceTransform_isEnoughSize byteSize bt chunks =
     (case sum_chunks byteSize chunks 0 0 of (rows, bytes) \<Rightarrow>
        (case BalanceTransform_checkAndWaitMemoryAvailability (memory_tracker bt) bytes (reads bt) of
           None \<Rightarrow> None
         | Some t \<Rightarrow>
             Some (isEnoughSize (min_block_size_rows bt) (min_block_size_bytes bt) rows bytes,
                   bt\<lparr>reads := t, trace := trace bt @ [GateInvoked bytes]\<rparr>)))"

text \<open>\<^verbatim>\<open>BalanceTransform::convertToChunk\<close>, called on \<^verbatim>\<open>chunks_to_merge_vec\<close>.\<close>

definition BalanceTransform_convertToChunk ::
  "'a BalanceTransform \<Rightarrow> error + ('a Chunk \<times> 'a BalanceTransform)" where
  "BalanceTransform_convertToChunk bt =
     (if chunks_to_merge_vec bt = [] then Inr (MkChunk [] 0 None, bt)
      else
        let info = ChunksToSquash (map Chunk_clone (chunks_to_merge_vec bt)) (data_types bt);
            bt' = bt\<lparr>chunks_to_merge_vec := [], trace := trace bt @ [ListCleared]\<rparr>
        in case Chunk_ctor (Block_cloneEmptyColumns (header bt)) 0 (Some info) of
             Inl e \<Rightarrow> Inl e
           | Inr res \<Rightarrow> Inr (res, bt'))"

text \<open>
  \<^verbatim>\<open>BalanceTransform::addImpl\<close>. \<open>None\<close>: a gate never returned. \<open>Some (Inl e)\<close>: an
  exception. \<open>Some (Inr (chunk, bt'))\<close>: the returned chunk and the object after the call.
\<close>

definition BalanceTransform_addImpl ::
  "('a Column \<Rightarrow> size_t) \<Rightarrow> 'a BalanceTransform \<Rightarrow> 'a Block
     \<Rightarrow> (error + ('a Chunk \<times> 'a BalanceTransform)) option" where
  "BalanceTransform_addImpl byteSize bt input_block =
     (case Chunk_ctor (Block_getColumns input_block) (Block_rows input_block) None of
        Inl e \<Rightarrow> Some (Inl e)
      | Inr input_chunk \<Rightarrow>
          let bt0 = (if Block_getDataTypes input_block \<noteq> []
                     then bt\<lparr>data_types := Block_getDataTypes input_block\<rparr> else bt)
          in
          if \<not> Chunk_bool input_chunk then Some (BalanceTransform_convertToChunk bt0)
          else
            case BalanceTransform_isEnoughSize byteSize bt0 (chunks_to_merge_vec bt0) of
              None \<Rightarrow> None
            | Some (enough, bt1) \<Rightarrow>
                let bt2 = (if enough
                           then bt1\<lparr>chunks_to_merge_vec := [], trace := trace bt1 @ [ListCleared]\<rparr>
                           else bt1);
                    bt3 = (if Chunk_bool input_chunk
                           then bt2\<lparr>chunks_to_merge_vec :=
                                       chunks_to_merge_vec bt2 @ [Chunk_clone input_chunk],
                                     trace := trace bt2 @ [ListPushBack (Chunk_clone input_chunk)]\<rparr>
                           else bt2)
                in
                case BalanceTransform_isEnoughSize byteSize bt3 (chunks_to_merge_vec bt3) of
                  None \<Rightarrow> None
                | Some (True, bt4) \<Rightarrow> Some (BalanceTransform_convertToChunk bt4)
                | Some (False, bt4) \<Rightarrow> Some (Inr (input_chunk, bt4)))"

definition BalanceTransform_add ::
  "('a Column \<Rightarrow> size_t) \<Rightarrow> 'a BalanceTransform \<Rightarrow> 'a Block
     \<Rightarrow> (error + ('a Chunk \<times> 'a BalanceTransform)) option" where
  "BalanceTransform_add byteSize bt input_block = BalanceTransform_addImpl byteSize bt input_block"

definition isDataLeft :: "'a BalanceTransform \<Rightarrow> bool" where
  "isDataLeft bt \<longleftrightarrow> chunks_to_merge_vec bt \<noteq> []"

section \<open>Streams of calls\<close>

text \<open>
  A caller feeds the blocks of a stream to \<^verbatim>\<open>SquashingTransform::add\<close> one at a time and
  collects what each call returns.
\<close>

fun SquashingTransform_feed ::
  "('a Column \<Rightarrow> size_t) \<Rightarrow> 'a SquashingTransform \<Rightarrow> 'a Block list
     \<Rightarrow> error + ('a Block list \<times> 'a SquashingTransform)" where
  "SquashingTransform_feed byteSize st [] = Inr ([], st)"
| "SquashingTransform_feed byteSize st (b # rest) =
     (case SquashingTransform_add byteSize st b of
        Inl e \<Rightarrow> Inl e
      | Inr (out, st') \<Rightarrow>
          (case SquashingTransform_feed byteSize st' rest of
             Inl e \<Rightarrow> Inl e
           | Inr (outs, st'') \<Rightarrow> Inr (out # outs, st'')))"

text \<open>
  The two-stage pipeline: every block goes to \<^verbatim>\<open>BalanceTransform::add\<close>, and every returned
  chunk that carries an info goes on to \<^verbatim>\<open>NewSquashingTransform::add\<close>, whose blocks are the
  output. A chunk returned without info is the echo of the input and is not passed on.
\<close>

fun balance_and_squash ::
  "('a Column \<Rightarrow> size_t) \<Rightarrow> 'a BalanceTransform \<Rightarrow> 'a NewSquashingTransform \<Rightarrow> 'a Block list
     \<Rightarrow> (error + ('a Block list \<times> 'a BalanceTransform \<times> 'a NewSquashingTransform)) option" where
  "balance_and_squash byteSize bt sq [] = Some (Inr ([], bt, sq))"
| "balance_and_squash byteSize bt sq (b # rest) =
     (case BalanceTransform_add byteSize bt b of
        None \<Rightarrow> None
      | Some (Inl e) \<Rightarrow> Some (Inl e)
      | Some (Inr (chunk, bt')) \<Rightarrow>
          if hasChunkInfo chunk then
            (case NewSquashingTransform_add sq chunk of
               Inl e \<Rightarrow> Some (Inl e)
             | Inr (out, sq') \<Rightarrow>
                 (case balance_and_squash byteSize bt' sq' rest of
                    None \<Rightarrow> None
                  | Some (Inl e) \<Rightarrow> Some (Inl e)
                  | Some (Inr (outs, bt'', sq'')) \<Rightarrow> Some (Inr (out # outs, bt'', sq''))))
          else balance_and_squash byteSize bt' sq rest)"

text \<open>
  The values of column \<open>i\<close> of a block (none where the block has no such column), and the
  values of column \<open>i\<close> over a sequence of blocks, in order.
\<close>

definition column_at :: "'a Block \<Rightarrow> nat \<Rightarrow> 'a Column" where
  "column_at b i = (if i < length b then column (b ! i) else [])"

definition rows_of_column :: "'a Block list \<Rightarrow> nat \<Rightarrow> 'a Column" where
  "rows_of_column bs i = concat (map (\<lambda>b. column_at b i) bs)"

definition chunk_column_at :: "'a Chunk \<Rightarrow> nat \<Rightarrow> 'a Column" where
  "chunk_column_at c i = (if i < length (getColumns c) then getColumns c ! i else [])"

text \<open>
  A well-formed block has columns of one length (spec section 3). A block conforms to a header
  when it is well formed and is either the sentinel or has the header's structure.
\<close>

definition well_formed :: "'a Block \<Rightarrow> bool" where
  "well_formed b \<longleftrightarrow>
     (case b of [] \<Rightarrow> True | c # cs \<Rightarrow> \<forall>d \<in> set cs. length (column d) = length (column c))"

definition conforming :: "'a Block \<Rightarrow> 'a Block \<Rightarrow> bool" where
  "conforming h b \<longleftrightarrow> well_formed b \<and> (b = [] \<or> blocksHaveEqualStructure b h)"

text \<open>The values of column \<open>i\<close> over a list of chunks, and the chunks a marker carries.\<close>

definition chunks_column :: "'a Chunk list \<Rightarrow> nat \<Rightarrow> 'a Column" where
  "chunks_column cs i = concat (map (\<lambda>c. chunk_column_at c i) cs)"

definition marker_chunks :: "'a Chunk \<Rightarrow> 'a Chunk list" where
  "marker_chunks chunk =
     (case getChunkInfo chunk of Some (ChunksToSquash cs ts) \<Rightarrow> cs | _ \<Rightarrow> [])"

text \<open>
  The totals that \<^verbatim>\<open>BalanceTransform::isEnoughSize\<close> computes over a list of chunks, and
  whether they meet the thresholds of the object.
\<close>

definition total_rows :: "('a Column \<Rightarrow> size_t) \<Rightarrow> 'a Chunk list \<Rightarrow> size_t" where
  "total_rows byteSize cs = fst (sum_chunks byteSize cs 0 0)"

definition total_bytes :: "('a Column \<Rightarrow> size_t) \<Rightarrow> 'a Chunk list \<Rightarrow> size_t" where
  "total_bytes byteSize cs = snd (sum_chunks byteSize cs 0 0)"

definition pending_enough :: "('a Column \<Rightarrow> size_t) \<Rightarrow> 'a BalanceTransform \<Rightarrow> 'a Chunk list \<Rightarrow> bool" where
  "pending_enough byteSize bt cs \<longleftrightarrow>
     isEnoughSize (min_block_size_rows bt) (min_block_size_bytes bt)
       (total_rows byteSize cs) (total_bytes byteSize cs)"

text \<open>
  Names for the parts of a call of \<^verbatim>\<open>BalanceTransform::addImpl\<close>: the object once
  \<^verbatim>\<open>data_types\<close> has been taken from the block, the marker that \<^verbatim>\<open>convertToChunk\<close> builds
  over a list, and what is left of the list after the first \<^verbatim>\<open>isEnoughSize\<close> and its
  \<^verbatim>\<open>clear()\<close>.
\<close>

definition with_types :: "'a BalanceTransform \<Rightarrow> 'a Block \<Rightarrow> 'a BalanceTransform" where
  "with_types bt B =
     (if Block_getDataTypes B \<noteq> [] then bt\<lparr>data_types := Block_getDataTypes B\<rparr> else bt)"

definition marker_of :: "'a BalanceTransform \<Rightarrow> 'a Chunk list \<Rightarrow> 'a Chunk" where
  "marker_of bt cs =
     MkChunk (Block_cloneEmptyColumns (header bt)) 0 (Some (ChunksToSquash cs (data_types bt)))"

definition kept_pending :: "('a Column \<Rightarrow> size_t) \<Rightarrow> 'a BalanceTransform \<Rightarrow> 'a Chunk list" where
  "kept_pending byteSize bt =
     (if pending_enough byteSize bt (chunks_to_merge_vec bt) then [] else chunks_to_merge_vec bt)"


text \<open>A caller that feeds a stream of blocks to \<^verbatim>\<open>BalanceTransform::add\<close>.\<close>

fun BalanceTransform_feed ::
  "('a Column \<Rightarrow> size_t) \<Rightarrow> 'a BalanceTransform \<Rightarrow> 'a Block list
     \<Rightarrow> (error + ('a Chunk list \<times> 'a BalanceTransform)) option" where
  "BalanceTransform_feed byteSize bt [] = Some (Inr ([], bt))"
| "BalanceTransform_feed byteSize bt (b # rest) =
     (case BalanceTransform_add byteSize bt b of
        None \<Rightarrow> None
      | Some (Inl e) \<Rightarrow> Some (Inl e)
      | Some (Inr (chunk, bt')) \<Rightarrow>
          (case BalanceTransform_feed byteSize bt' rest of
             None \<Rightarrow> None
           | Some (Inl e) \<Rightarrow> Some (Inl e)
           | Some (Inr (chunks, bt'')) \<Rightarrow> Some (Inr (chunk # chunks, bt''))))"

section \<open>Concrete instances\<close>

text \<open>
  A column of 64-bit numbers takes 8 bytes per value. The instances below have a threshold of
  two rows and no threshold on bytes.
\<close>

definition byteSize8 :: "nat Column \<Rightarrow> size_t" where
  "byteSize8 c = 8 * column_size c"

definition u64col :: "nat list \<Rightarrow> nat ColumnWithTypeAndName" where
  "u64col vs = ColumnWithTypeAndName vs ''UInt64'' ''x''"

definition squasher2 :: "nat SquashingTransform" where
  "squasher2 = \<lparr>min_block_size_rows = 2, min_block_size_bytes = 0, accumulated_block = []\<rparr>"

definition tracker_unbounded :: MemoryTracker where
  "tracker_unbounded = \<lparr>getHardLimit = 0, get = (\<lambda>t. 0)\<rparr>"

definition tracker_draining :: MemoryTracker where
  "tracker_draining = \<lparr>getHardLimit = 1000, get = (\<lambda>t. if t < 2 then 5 else - 100)\<rparr>"


definition balancer2 :: "nat BalanceTransform" where
  "balancer2 =
     \<lparr>min_block_size_rows = 2, min_block_size_bytes = 0, chunks_to_merge_vec = [],
      header = [u64col []], data_types = [], memory_tracker = tracker_unbounded,
      reads = 0, trace = []\<rparr>"

section \<open>Lemmas: SquashingTransform and the gate\<close>

lemma foldl_insertRangeFrom_at:
  "n \<le> length acc \<Longrightarrow>
   length (foldl (\<lambda>blk i. insertRangeFrom_at blk source i) acc [0..<n]) = length acc \<and>
   (\<forall>i < length acc.
      foldl (\<lambda>blk i. insertRangeFrom_at blk source i) acc [0..<n] ! i =
        (if i < n then ColumnWithTypeAndName (column (acc ! i) @ source ! i) (type (acc ! i)) (name (acc ! i))
         else acc ! i))"
proof (induction n)
  case 0
  then show ?case by simp
next
  case (Suc n)
  then have IH: "length (foldl (\<lambda>blk i. insertRangeFrom_at blk source i) acc [0..<n]) = length acc"
    "\<And>i. i < length acc \<Longrightarrow> foldl (\<lambda>blk i. insertRangeFrom_at blk source i) acc [0..<n] ! i =
        (if i < n then ColumnWithTypeAndName (column (acc ! i) @ source ! i) (type (acc ! i)) (name (acc ! i))
         else acc ! i)"
    by simp_all
  show ?case
    using Suc.prems IH
    by (auto simp: insertRangeFrom_at_def nth_list_update less_Suc_eq)
qed

lemma length_append_columns [simp]: "length (append_columns acc source) = length acc"
  using foldl_insertRangeFrom_at [of "length acc" acc source] by (simp add: append_columns_def)

lemma nth_append_columns:
  "i < length acc \<Longrightarrow> append_columns acc source ! i =
     ColumnWithTypeAndName (column (acc ! i) @ source ! i) (type (acc ! i)) (name (acc ! i))"
  using foldl_insertRangeFrom_at [of "length acc" acc source] by (simp add: append_columns_def)

lemma column_at_append_columns:
  "length acc = length b \<Longrightarrow>
   column_at (append_columns acc (Block_getColumns b)) i = column_at acc i @ column_at b i"
  by (simp add: column_at_def nth_append_columns Block_getColumns_def)

lemma equal_structure_length:
  "blocksHaveEqualStructure a b \<Longrightarrow> length a = length b"
  unfolding blocksHaveEqualStructure_def using map_eq_imp_length_eq by blast

lemma append_column_at:
  "SquashingTransform_append st b = Inr st' \<Longrightarrow>
   column_at (accumulated_block st') i = column_at (accumulated_block st) i @ column_at b i"
  by (auto simp: SquashingTransform_append_def Block_bool_def column_at_append_columns
      dest: equal_structure_length split: if_splits) (simp add: column_at_def)

lemma addImpl_column_at:
  "SquashingTransform_addImpl byteSize st b = Inr (out, st') \<Longrightarrow>
   column_at out i @ column_at (accumulated_block st') i = column_at (accumulated_block st) i @ column_at b i"
  unfolding SquashingTransform_addImpl_def
  by (auto simp: Block_bool_def column_at_def[of "[]"] dest: append_column_at[where i=i]
      split: if_splits sum.splits bool.splits)


lemma feed_column_at:
  "SquashingTransform_feed byteSize st Bs = Inr (outs, st') \<Longrightarrow>
   rows_of_column outs i @ column_at (accumulated_block st') i =
     column_at (accumulated_block st) i @ rows_of_column Bs i"
proof (induction Bs arbitrary: st outs)
  case Nil
  then show ?case by (simp add: rows_of_column_def)
next
  case (Cons b Bs)
  from Cons.prems obtain out st1 outs1 where
    step: "SquashingTransform_addImpl byteSize st b = Inr (out, st1)" and
    rest: "SquashingTransform_feed byteSize st1 Bs = Inr (outs1, st')" and
    outs: "outs = out # outs1"
    by (auto simp: SquashingTransform_add_def split: sum.splits)
  from Cons.IH [OF rest] addImpl_column_at [OF step, of i]
  show ?case by (simp add: outs rows_of_column_def)
qed

lemma isEnoughSize_loop_uniform:
  "\<forall>c \<in> set cs. column_size (column c) = s \<Longrightarrow> rows = 0 \<or> rows = s \<Longrightarrow>
   \<exists>r. isEnoughSize_loop byteSize cs rows bytes = Inr r"
  by (induction cs arbitrary: rows bytes) auto

lemma well_formed_sizes:
  "well_formed b \<Longrightarrow> \<exists>s. \<forall>c \<in> set b. column_size (column c) = s"
  by (cases b) (auto simp: well_formed_def column_size_def)

lemma isEnoughSize_well_formed:
  "well_formed b \<Longrightarrow> \<exists>r. SquashingTransform_isEnoughSize byteSize st b = Inr r"
proof -
  assume "well_formed b"
  then obtain s where "\<forall>c \<in> set b. column_size (column c) = s"
    using well_formed_sizes by blast
  then obtain r where "isEnoughSize_loop byteSize b 0 0 = Inr r"
    using isEnoughSize_loop_uniform [of b s 0 byteSize 0] by auto
  then show ?thesis
    by (cases r) (simp add: SquashingTransform_isEnoughSize_def)
qed

lemma well_formed_append_columns:
  assumes "well_formed acc" "well_formed b" "length acc = length b"
  shows "well_formed (append_columns acc (Block_getColumns b))"
proof (cases acc)
  case Nil
  then show ?thesis by (simp add: well_formed_def append_columns_def)
next
  case (Cons a as)
  then obtain c cs where b: "b = c # cs" using assms(3) by (cases b) auto
  have la: "\<And>i. i < length acc \<Longrightarrow> length (column (acc ! i)) = length (column a)"
    using assms(1) Cons by (auto simp: well_formed_def nth_Cons split: nat.splits)
  have lb: "\<And>i. i < length b \<Longrightarrow> length (column (b ! i)) = length (column c)"
    using assms(2) b by (auto simp: well_formed_def nth_Cons split: nat.splits)
  have "\<forall>d \<in> set (append_columns acc (Block_getColumns b)).
          length (column d) = length (column a) + length (column c)"
  proof
    fix d assume "d \<in> set (append_columns acc (Block_getColumns b))"
    then obtain i where i: "i < length acc" "d = append_columns acc (Block_getColumns b) ! i"
      by (auto simp: in_set_conv_nth)
    then show "length (column d) = length (column a) + length (column c)"
      using la [of i] lb [of i] assms(3)
      by (simp add: nth_append_columns Block_getColumns_def)
  qed
  then show ?thesis
    by (cases "append_columns acc (Block_getColumns b)") (auto simp: well_formed_def)
qed

lemma equal_structure_append_columns:
  "blocksHaveEqualStructure (append_columns acc source) h = blocksHaveEqualStructure acc h"
proof -
  have "map type (append_columns acc source) = map type acc"
    by (rule nth_equalityI) (simp_all add: nth_append_columns)
  moreover have "map name (append_columns acc source) = map name acc"
    by (rule nth_equalityI) (simp_all add: nth_append_columns)
  ultimately show ?thesis by (simp add: blocksHaveEqualStructure_def)
qed

lemma equal_structure_trans:
  "blocksHaveEqualStructure a h \<Longrightarrow> blocksHaveEqualStructure b h \<Longrightarrow> blocksHaveEqualStructure a b"
  by (simp add: blocksHaveEqualStructure_def)

lemma append_conforming:
  assumes "conforming h (accumulated_block st)" "conforming h b" "b \<noteq> []"
  shows "\<exists>st'. SquashingTransform_append st b = Inr st' \<and> conforming h (accumulated_block st')
            \<and> min_block_size_rows st' = min_block_size_rows st
            \<and> min_block_size_bytes st' = min_block_size_bytes st"
proof (cases "accumulated_block st = []")
  case True
  then show ?thesis using assms by (simp add: SquashingTransform_append_def Block_bool_def)
next
  case False
  with assms have sa: "blocksHaveEqualStructure (accumulated_block st) h"
    and sb: "blocksHaveEqualStructure b h"
    by (simp_all add: conforming_def)
  have eq: "blocksHaveEqualStructure b (accumulated_block st)"
    using sa sb by (simp add: blocksHaveEqualStructure_def)
  have len: "length (accumulated_block st) = length b"
    using equal_structure_length [OF eq] by simp
  have "conforming h (append_columns (accumulated_block st) (Block_getColumns b))"
    using assms False len
    by (auto simp: conforming_def well_formed_append_columns equal_structure_append_columns)
  then show ?thesis using False eq
    by (simp add: SquashingTransform_append_def Block_bool_def)
qed

lemma addImpl_conforming:
  assumes "conforming h (accumulated_block st)" "conforming h b"
  shows "\<exists>out st'. SquashingTransform_addImpl byteSize st b = Inr (out, st')
            \<and> conforming h (accumulated_block st')"
proof (cases "b = []")
  case True
  then show ?thesis
    by (simp add: SquashingTransform_addImpl_def Block_bool_def conforming_def well_formed_def)
next
  case False
  from assms obtain r1 where r1: "SquashingTransform_isEnoughSize byteSize st b = Inr r1"
    using isEnoughSize_well_formed conforming_def by blast
  from assms obtain r2 where
    r2: "SquashingTransform_isEnoughSize byteSize st (accumulated_block st) = Inr r2"
    using isEnoughSize_well_formed conforming_def by blast
  from append_conforming [OF assms False] obtain st1 where
    st1: "SquashingTransform_append st b = Inr st1" "conforming h (accumulated_block st1)"
    by blast
  then obtain r3 where
    r3: "SquashingTransform_isEnoughSize byteSize st1 (accumulated_block st1) = Inr r3"
    using isEnoughSize_well_formed conforming_def by blast
  have e: "conforming h []" by (simp add: conforming_def well_formed_def)
  show ?thesis
    using False r1 r2 st1 r3 assms e
    by (cases r1; cases r2; cases r3) (simp_all add: SquashingTransform_addImpl_def Block_bool_def)
qed

lemma feed_conforming:
  "conforming h (accumulated_block st) \<Longrightarrow> \<forall>b \<in> set Bs. conforming h b \<Longrightarrow>
   \<exists>outs st'. SquashingTransform_feed byteSize st Bs = Inr (outs, st')"
proof (induction Bs arbitrary: st)
  case Nil
  then show ?case by simp
next
  case (Cons b Bs)
  then obtain out st1 where
    s: "SquashingTransform_addImpl byteSize st b = Inr (out, st1)" "conforming h (accumulated_block st1)"
    using addImpl_conforming [of h st b byteSize] by auto
  from Cons.IH [OF s(2)] Cons.prems(2) obtain outs st' where
    "SquashingTransform_feed byteSize st1 Bs = Inr (outs, st')" by auto
  then show ?case using s by (simp add: SquashingTransform_add_def)
qed


lemma rows_of_column_filter:
  "rows_of_column (filter Block_bool outs) i = rows_of_column outs i"
  by (induction outs) (auto simp: rows_of_column_def Block_bool_def column_at_def)

lemma feed_snoc:
  "SquashingTransform_feed byteSize st (Bs @ [x]) = Inr (outs, st') \<Longrightarrow>
   \<exists>outs1 st1 out. SquashingTransform_feed byteSize st Bs = Inr (outs1, st1)
      \<and> SquashingTransform_add byteSize st1 x = Inr (out, st') \<and> outs = outs1 @ [out]"
proof (induction Bs arbitrary: st outs)
  case Nil
  then show ?case by (auto split: sum.splits)
next
  case (Cons b Bs)
  from Cons.prems obtain out0 st0 outs0 where
    a: "SquashingTransform_add byteSize st b = Inr (out0, st0)" and
    r: "SquashingTransform_feed byteSize st0 (Bs @ [x]) = Inr (outs0, st')" and
    o: "outs = out0 # outs0"
    by (auto split: sum.splits)
  from Cons.IH [OF r] a o show ?case by auto
qed

lemma add_sentinel:
  "SquashingTransform_add byteSize st [] = Inr (out, st') \<Longrightarrow> accumulated_block st' = []"
  by (auto simp: SquashingTransform_add_def SquashingTransform_addImpl_def Block_bool_def)

lemma feed_preserves_rows:
  assumes "\<forall>b \<in> set Bs. conforming h b" and "accumulated_block st = []"
  shows "\<exists>outs st'. SquashingTransform_feed byteSize st (Bs @ [[]]) = Inr (outs, st')
           \<and> (\<forall>i. rows_of_column (filter Block_bool outs) i = rows_of_column Bs i)
           \<and> (\<Sum>b \<leftarrow> filter Block_bool outs. length (column_at b 0)) = (\<Sum>b \<leftarrow> Bs. length (column_at b 0))"
proof -
  have c0: "conforming h (accumulated_block st)"
    using assms(2) by (simp add: conforming_def well_formed_def)
  have "\<forall>b \<in> set (Bs @ [[]]). conforming h b"
    using assms(1) by (simp add: conforming_def well_formed_def)
  from feed_conforming [OF c0 this] obtain outs st' where
    run: "SquashingTransform_feed byteSize st (Bs @ [[]]) = Inr (outs, st')" by blast
  have last_empty: "accumulated_block st' = []"
    using feed_snoc [OF run] add_sentinel by blast
  have data: "rows_of_column (filter Block_bool outs) i = rows_of_column Bs i" for i
  proof -
    have "rows_of_column outs i = rows_of_column (Bs @ [[]]) i"
      using feed_column_at [OF run, of i] assms(2) last_empty by (simp add: column_at_def)
    also have "\<dots> = rows_of_column Bs i"
      by (simp add: rows_of_column_def column_at_def)
    finally show ?thesis by (simp add: rows_of_column_filter)
  qed
  have len: "(\<Sum>b \<leftarrow> xs. length (column_at b 0)) = length (rows_of_column xs 0)" for xs :: "'a Block list"
    by (simp add: rows_of_column_def length_concat comp_def)
  show ?thesis
    using run data by (simp add: len)
qed


lemma isEnoughSize_thresholds:
  "min_block_size_rows st' = min_block_size_rows st \<Longrightarrow>
   min_block_size_bytes st' = min_block_size_bytes st \<Longrightarrow>
   SquashingTransform_isEnoughSize byteSize st' b = SquashingTransform_isEnoughSize byteSize st b"
  by (simp add: SquashingTransform_isEnoughSize_def split: sum.splits prod.splits)

lemma append_thresholds:
  "SquashingTransform_append st b = Inr st' \<Longrightarrow>
   min_block_size_rows st' = min_block_size_rows st \<and> min_block_size_bytes st' = min_block_size_bytes st"
  by (auto simp: SquashingTransform_append_def split: if_splits)

lemma addImpl_output:
  assumes nonsentinel: "Block_bool B"
    and run: "SquashingTransform_add byteSize st B = Inr (out, st')"
    and nonempty: "Block_bool out"
  shows "SquashingTransform_isEnoughSize byteSize st out = Inr True
       \<or> (out = accumulated_block st \<and> SquashingTransform_isEnoughSize byteSize st B = Inr True)"
proof -
  from nonsentinel run obtain r1 where r1: "SquashingTransform_isEnoughSize byteSize st B = Inr r1"
    by (cases "SquashingTransform_isEnoughSize byteSize st B")
       (simp_all add: SquashingTransform_add_def SquashingTransform_addImpl_def)
  show ?thesis
  proof (cases r1)
    case True
    with r1 nonsentinel run show ?thesis
      by (auto simp: SquashingTransform_add_def SquashingTransform_addImpl_def split: if_splits)
  next
    case False
    with r1 nonsentinel run obtain r2 where
      r2: "SquashingTransform_isEnoughSize byteSize st (accumulated_block st) = Inr r2"
      by (cases "SquashingTransform_isEnoughSize byteSize st (accumulated_block st)")
         (simp_all add: SquashingTransform_add_def SquashingTransform_addImpl_def)
    show ?thesis
    proof (cases r2)
      case True
      with r2 r1 \<open>\<not> r1\<close> nonsentinel run show ?thesis
        by (auto simp: SquashingTransform_add_def SquashingTransform_addImpl_def)
    next
      case False
      with r2 r1 \<open>\<not> r1\<close> nonsentinel run nonempty obtain st1 where
        ap: "SquashingTransform_append st B = Inr st1" and
        en: "SquashingTransform_isEnoughSize byteSize st1 (accumulated_block st1) = Inr True" and
        out: "out = accumulated_block st1"
        by (auto simp: SquashingTransform_add_def SquashingTransform_addImpl_def Block_bool_def
            split: sum.splits bool.splits)
      from append_thresholds [OF ap] en out show ?thesis
        by (simp add: isEnoughSize_thresholds [of st1 st])
    qed
  qed
qed

lemma isEnoughSize_loop_started:
  "rows \<noteq> 0 \<Longrightarrow> \<exists>c \<in> set cs. column_size (column c) \<noteq> rows \<Longrightarrow>
   isEnoughSize_loop byteSize cs rows bytes = Inl SIZES_OF_COLUMNS_DOESNT_MATCH"
  by (induction cs arbitrary: bytes) auto

lemma isEnoughSize_loop_mismatch:
  "i < j \<Longrightarrow> j < length cs \<Longrightarrow> column_size (column (cs ! i)) \<noteq> 0 \<Longrightarrow>
   column_size (column (cs ! j)) \<noteq> column_size (column (cs ! i)) \<Longrightarrow>
   isEnoughSize_loop byteSize cs 0 bytes = Inl SIZES_OF_COLUMNS_DOESNT_MATCH"
proof (induction cs arbitrary: i j bytes)
  case Nil
  then show ?case by simp
next
  case (Cons c cs)
  show ?case
  proof (cases "column_size (column c) = 0")
    case True
    with Cons.prems obtain i' where i': "i = Suc i'" by (cases i) auto
    with Cons.prems obtain j' where j': "j = Suc j'" by (cases j) auto
    from Cons.IH [of i' j'] Cons.prems i' j' True show ?thesis by simp
  next
    case False
    from Cons.prems obtain j' where j': "j = Suc j'" by (cases j) auto
    have "\<exists>d \<in> set cs. column_size (column d) \<noteq> column_size (column c)"
    proof (cases i)
      case 0
      with Cons.prems j' show ?thesis by (auto intro: bexI [of _ "cs ! j'"])
    next
      case (Suc i')
      with Cons.prems j' have "cs ! i' \<in> set cs" "cs ! j' \<in> set cs"
        "column_size (column (cs ! j')) \<noteq> column_size (column (cs ! i'))"
        by auto
      then show ?thesis by metis
    qed
    with False show ?thesis by (simp add: isEnoughSize_loop_started)
  qed
qed

lemma add_rejects_mismatch:
  assumes "i < j" "j < length B" "column_size (column (B ! i)) \<noteq> 0"
    "column_size (column (B ! j)) \<noteq> column_size (column (B ! i))"
  shows "SquashingTransform_add byteSize st B = Inl SIZES_OF_COLUMNS_DOESNT_MATCH"
proof -
  have "B \<noteq> []" using assms by auto
  moreover have "SquashingTransform_isEnoughSize byteSize st B = Inl SIZES_OF_COLUMNS_DOESNT_MATCH"
    using isEnoughSize_loop_mismatch [OF assms] by (simp add: SquashingTransform_isEnoughSize_def)
  ultimately show ?thesis
    by (simp add: SquashingTransform_add_def SquashingTransform_addImpl_def Block_bool_def)
qed

lemma add_retained:
  assumes run: "SquashingTransform_add byteSize st B = Inr (out, st')"
  shows "accumulated_block st' = []
       \<or> SquashingTransform_isEnoughSize byteSize st' (accumulated_block st') = Inr False
       \<or> (accumulated_block st' = B \<and> accumulated_block st \<noteq> []
            \<and> SquashingTransform_isEnoughSize byteSize st B = Inr True)"
proof (cases "B = []")
  case True
  with run show ?thesis
    by (auto simp: SquashingTransform_add_def SquashingTransform_addImpl_def Block_bool_def)
next
  case nonsentinel: False
  with run obtain r1 where r1: "SquashingTransform_isEnoughSize byteSize st B = Inr r1"
    by (cases "SquashingTransform_isEnoughSize byteSize st B")
       (simp_all add: SquashingTransform_add_def SquashingTransform_addImpl_def Block_bool_def)
  show ?thesis
  proof (cases r1)
    case True
    with r1 run nonsentinel show ?thesis
      by (auto simp: SquashingTransform_add_def SquashingTransform_addImpl_def Block_bool_def
          split: if_splits)
  next
    case False
    with r1 run nonsentinel obtain r2 where
      r2: "SquashingTransform_isEnoughSize byteSize st (accumulated_block st) = Inr r2"
      by (cases "SquashingTransform_isEnoughSize byteSize st (accumulated_block st)")
         (simp_all add: SquashingTransform_add_def SquashingTransform_addImpl_def Block_bool_def)
    show ?thesis
    proof (cases r2)
      case True
      with r2 r1 \<open>\<not> r1\<close> run nonsentinel have "st' = st\<lparr>accumulated_block := B\<rparr>"
        by (auto simp: SquashingTransform_add_def SquashingTransform_addImpl_def Block_bool_def)
      with r1 \<open>\<not> r1\<close> show ?thesis
        by (simp add: isEnoughSize_thresholds [of "st\<lparr>accumulated_block := B\<rparr>" st])
    next
      case False
      note facts = r2 r1 \<open>\<not> r1\<close> \<open>\<not> r2\<close> run nonsentinel
      from facts obtain st1 where ap: "SquashingTransform_append st B = Inr st1"
        by (cases "SquashingTransform_append st B")
           (simp_all add: SquashingTransform_add_def SquashingTransform_addImpl_def Block_bool_def)
      with facts obtain r3 where
        r3: "SquashingTransform_isEnoughSize byteSize st1 (accumulated_block st1) = Inr r3"
        by (cases "SquashingTransform_isEnoughSize byteSize st1 (accumulated_block st1)")
           (simp_all add: SquashingTransform_add_def SquashingTransform_addImpl_def Block_bool_def)
      from facts ap r3 show ?thesis
        by (cases r3)
           (auto simp: SquashingTransform_add_def SquashingTransform_addImpl_def Block_bool_def)
    qed
  qed
qed

lemma wait_for_memory_returns:
  assumes "wait_for_memory usage hard_limit bytes t = Some t'"
  shows "t < t' \<and> \<not> word_sle (hard_limit - usage (t' - 1)) bytes"
proof (rule wait_for_memory.raw_induct
    [where P = "\<lambda>usage hard_limit bytes t t'. t < t' \<and> \<not> word_sle (hard_limit - usage (t' - 1)) bytes",
      OF _ assms])
  fix wait :: "(nat \<Rightarrow> Int64) \<Rightarrow> Int64 \<Rightarrow> size_t \<Rightarrow> nat \<Rightarrow> nat option"
    and usage hard_limit bytes t y
  assume IH: "\<And>usage hard_limit bytes t y. wait usage hard_limit bytes t = Some y \<Longrightarrow>
      t < y \<and> \<not> word_sle (hard_limit - usage (y - 1)) bytes"
    and eq: "(if word_sle (hard_limit - usage t) bytes
              then wait usage hard_limit bytes (Suc t) else Some (Suc t)) = Some y"
  show "t < y \<and> \<not> word_sle (hard_limit - usage (y - 1)) bytes"
  proof (cases "word_sle (hard_limit - usage t) bytes")
    case True
    with eq have "wait usage hard_limit bytes (Suc t) = Some y" by simp
    from IH [OF this] show ?thesis by simp
  next
    case False
    with eq show ?thesis by auto
  qed
qed

lemma sint_one_minus:
  fixes u :: Int64
  assumes "0 \<le> sint (1 - u)"
  shows "sint (1 - u) = 1 - sint u"
proof -
  define k where "k = 1 - sint u"
  have b: "- (2 ^ 63) \<le> sint u" "sint u < 2 ^ 63"
    using sint_ge [of u] sint_lt [of u] by simp_all
  have s: "sint (1 - u) = signed_take_bit 63 k"
    by (simp add: sint_word_ariths k_def)
  have lo: "- (2 ^ 63) \<le> k" using b by (simp add: k_def)
  show ?thesis
  proof (cases "k < 2 ^ 63")
    case True
    with lo have "signed_take_bit 63 k = k"
      by (intro signed_take_bit_int_eq_self)
    with s show ?thesis by (simp add: k_def)
  next
    case False
    then have "2 ^ 63 \<le> k" by simp
    then have "signed_take_bit 63 k \<le> k - 2 * 2 ^ 63"
      using signed_take_bit_int_less_eq [of 63 k] by (simp only: power_Suc)
    moreover have "k \<le> 2 ^ 63 + 1" using b by (simp add: k_def)
    moreover have "(2::int) \<le> 2 ^ 63" by simp
    ultimately have "signed_take_bit 63 k < 0" by linarith
    with s assms show ?thesis by simp
  qed
qed

lemma sint_small:
  fixes b :: size_t
  assumes "uint b < 2 ^ 63"
  shows "sint b = uint b"
proof -
  have "sint b = signed_take_bit 63 (uint b)"
    by (simp add: sint_uint)
  also have "\<dots> = uint b"
  proof (rule signed_take_bit_int_eq_self)
    have "(0::int) \<le> 2 ^ 63" by simp
    with uint_nonnegative [of b] show "- (2 ^ 63) \<le> uint b" by linarith
    show "uint b < 2 ^ 63" by (rule assms)
  qed
  finally show ?thesis .
qed

lemma BalanceTransform_gate:
  assumes "BalanceTransform_checkAndWaitMemoryAvailability mt bytes t = Some t'"
    and "0 \<le> sint (getHardLimit mt)"
    and "uint bytes < 2 ^ 63"
  shows "(getHardLimit mt = 0 \<and> t' = t)
       \<or> (t < t' \<and> uint bytes < sint (getHardLimit mt) - sint (get mt (t' - 1)))"
proof (cases "getHardLimit mt = 0")
  case True
  with assms(1) show ?thesis
    by (simp add: BalanceTransform_checkAndWaitMemoryAvailability_def)
next
  case False
  with assms(1) have w: "wait_for_memory (get mt) 1 bytes t = Some t'"
    by (simp add: BalanceTransform_checkAndWaitMemoryAvailability_def)
  from wait_for_memory_returns [OF w]
  have lt: "t < t'" and ex: "\<not> word_sle (1 - get mt (t' - 1)) bytes" by simp_all
  note sb = sint_small [OF assms(3)]
  from ex have gt: "sint bytes < sint (1 - get mt (t' - 1))"
    by (simp add: word_sle_eq)
  with sb uint_nonnegative [of bytes] have "0 \<le> sint (1 - get mt (t' - 1))" by linarith
  from sint_one_minus [OF this] gt sb
  have "uint bytes < 1 - sint (get mt (t' - 1))" by simp
  moreover have "sint (getHardLimit mt) \<noteq> 0"
    using False signed_eq_0_iff [of "getHardLimit mt", where ?'a = int] by simp
  ultimately show ?thesis using lt assms(2) by simp
qed

section \<open>Lemmas: one call of BalanceTransform\<close>

lemma sum_chunks_sums:
  "sum_chunks byteSize cs rows bytes =
     (rows + sum_list (map getNumRows cs), bytes + sum_list (map (Chunk_bytes byteSize) cs))"
  by (induction cs arbitrary: rows bytes) (simp_all add: add.assoc)

lemma total_bytes_sum: "total_bytes byteSize cs = sum_list (map (Chunk_bytes byteSize) cs)"
  by (simp add: total_bytes_def sum_chunks_sums)

lemma total_rows_sum: "total_rows byteSize cs = sum_list (map getNumRows cs)"
  by (simp add: total_rows_def sum_chunks_sums)

lemma total_bytes_snoc:
  "total_bytes byteSize (cs @ [c]) = total_bytes byteSize cs + Chunk_bytes byteSize c"
  by (simp add: total_bytes_sum)

lemma isEnoughSize_chunks_Some:
  assumes "BalanceTransform_isEnoughSize byteSize bt cs = Some (e, bt1)"
  shows "e = pending_enough byteSize bt cs"
    and "\<exists>t. bt1 = bt\<lparr>reads := t, trace := trace bt @ [GateInvoked (total_bytes byteSize cs)]\<rparr>"
  using assms
  by (auto simp: BalanceTransform_isEnoughSize_def pending_enough_def total_rows_def total_bytes_def
      split: prod.splits option.splits)

lemma gate_unbounded:
  "getHardLimit mt = 0 \<Longrightarrow> BalanceTransform_checkAndWaitMemoryAvailability mt bytes t = Some t"
  by (simp add: BalanceTransform_checkAndWaitMemoryAvailability_def)

lemma isEnoughSize_chunks_unbounded:
  "getHardLimit (memory_tracker bt) = 0 \<Longrightarrow>
   \<exists>r. BalanceTransform_isEnoughSize byteSize bt cs = Some r"
  by (simp add: BalanceTransform_isEnoughSize_def gate_unbounded split: prod.splits)

lemma map_Chunk_clone [simp]: "map Chunk_clone cs = cs"
  by (induction cs) (simp_all add: Chunk_clone_def)

lemma convertToChunk_result:
  "BalanceTransform_convertToChunk bt =
     (if chunks_to_merge_vec bt = [] then Inr (MkChunk [] 0 None, bt)
      else Inr (marker_of bt (chunks_to_merge_vec bt),
                bt\<lparr>chunks_to_merge_vec := [], trace := trace bt @ [ListCleared]\<rparr>))"
  by (simp add: BalanceTransform_convertToChunk_def marker_of_def Chunk_ctor_def
      Block_cloneEmptyColumns_def column_size_def Chunk_clone_def Let_def)

lemma add_sentinel_result:
  "BalanceTransform_add byteSize bt [] = Some (BalanceTransform_convertToChunk bt)"
  by (simp add: BalanceTransform_add_def BalanceTransform_addImpl_def Chunk_ctor_def
      Block_getColumns_def Block_rows_def Block_getDataTypes_def Chunk_bool_def hasRows_def
      hasColumns_def)

lemma add_nonsentinel_result:
  assumes ctor: "Chunk_ctor (Block_getColumns B) (Block_rows B) None = Inr chunk"
    and ne: "Chunk_bool chunk"
    and run: "BalanceTransform_add byteSize bt B = Some r"
  shows "\<exists>t pending.
      pending = (if pending_enough byteSize bt (chunks_to_merge_vec bt) then [] else chunks_to_merge_vec bt) @ [chunk] \<and>
      r = Inr (if pending_enough byteSize bt pending then marker_of (with_types bt B) pending else chunk,
               (with_types bt B)\<lparr>chunks_to_merge_vec := (if pending_enough byteSize bt pending then [] else pending),
                 reads := t,
                 trace := trace bt @ [GateInvoked (total_bytes byteSize (chunks_to_merge_vec bt))]
                    @ (if pending_enough byteSize bt (chunks_to_merge_vec bt) then [ListCleared] else [])
                    @ [ListPushBack chunk, GateInvoked (total_bytes byteSize pending)]
                    @ (if pending_enough byteSize bt pending then [ListCleared] else [])\<rparr>)"
proof -
  let ?bt0 = "with_types bt B"
  have th: "min_block_size_rows ?bt0 = min_block_size_rows bt" "min_block_size_bytes ?bt0 = min_block_size_bytes bt"
    "chunks_to_merge_vec ?bt0 = chunks_to_merge_vec bt" "trace ?bt0 = trace bt"
    by (simp_all add: with_types_def)
  have unf: "BalanceTransform_add byteSize bt B =
     (case BalanceTransform_isEnoughSize byteSize ?bt0 (chunks_to_merge_vec ?bt0) of
        None \<Rightarrow> None
      | Some (enough, bt1) \<Rightarrow>
          let bt2 = (if enough
                     then bt1\<lparr>chunks_to_merge_vec := [], trace := trace bt1 @ [ListCleared]\<rparr>
                     else bt1);
              bt3 = bt2\<lparr>chunks_to_merge_vec := chunks_to_merge_vec bt2 @ [chunk],
                         trace := trace bt2 @ [ListPushBack chunk]\<rparr>
          in
          case BalanceTransform_isEnoughSize byteSize bt3 (chunks_to_merge_vec bt3) of
            None \<Rightarrow> None
          | Some (True, bt4) \<Rightarrow> Some (BalanceTransform_convertToChunk bt4)
          | Some (False, bt4) \<Rightarrow> Some (Inr (chunk, bt4)))"
    using ctor ne
    by (simp add: BalanceTransform_add_def BalanceTransform_addImpl_def with_types_def Let_def
        Chunk_clone_def cong: option.case_cong prod.case_cong)
  from run unf obtain e0 bt1 where
    g0': "BalanceTransform_isEnoughSize byteSize ?bt0 (chunks_to_merge_vec ?bt0) = Some (e0, bt1)"
    by (cases "BalanceTransform_isEnoughSize byteSize ?bt0 (chunks_to_merge_vec ?bt0)") auto
  then have g0: "BalanceTransform_isEnoughSize byteSize ?bt0 (chunks_to_merge_vec bt) = Some (e0, bt1)"
    by (simp only: th)
  from isEnoughSize_chunks_Some [OF g0] th obtain t1 where
    e0: "e0 = pending_enough byteSize bt (chunks_to_merge_vec bt)" and
    bt1: "bt1 = ?bt0\<lparr>reads := t1, trace := trace bt @ [GateInvoked (total_bytes byteSize (chunks_to_merge_vec bt))]\<rparr>"
    by (auto simp: pending_enough_def)
  define pending where "pending = (if e0 then [] else chunks_to_merge_vec bt) @ [chunk]"
  define bt3 where "bt3 = ?bt0\<lparr>reads := t1, chunks_to_merge_vec := pending,
     trace := trace bt @ [GateInvoked (total_bytes byteSize (chunks_to_merge_vec bt))]
        @ (if e0 then [ListCleared] else []) @ [ListPushBack chunk]\<rparr>"
  have step: "BalanceTransform_add byteSize bt B =
     (case BalanceTransform_isEnoughSize byteSize bt3 (chunks_to_merge_vec bt3) of
        None \<Rightarrow> None
      | Some (True, bt4) \<Rightarrow> Some (BalanceTransform_convertToChunk bt4)
      | Some (False, bt4) \<Rightarrow> Some (Inr (chunk, bt4)))"
    using g0' th
    by (simp add: unf Let_def bt1 bt3_def pending_def)
  from run step obtain e1 bt4 where
    g1: "BalanceTransform_isEnoughSize byteSize bt3 pending = Some (e1, bt4)"
    by (cases "BalanceTransform_isEnoughSize byteSize bt3 pending") (auto simp: bt3_def)
  from isEnoughSize_chunks_Some [OF g1] th obtain t2 where
    e1: "e1 = pending_enough byteSize bt pending" and
    bt4: "bt4 = bt3\<lparr>reads := t2, trace := trace bt3 @ [GateInvoked (total_bytes byteSize pending)]\<rparr>"
    by (auto simp: pending_enough_def bt3_def)
  have pne: "pending \<noteq> []" by (simp add: pending_def)
  define target where "target = ?bt0\<lparr>chunks_to_merge_vec := (if e1 then [] else pending),
                 reads := t2,
                 trace := trace bt @ [GateInvoked (total_bytes byteSize (chunks_to_merge_vec bt))]
                    @ (if e0 then [ListCleared] else [])
                    @ [ListPushBack chunk, GateInvoked (total_bytes byteSize pending)]
                    @ (if e1 then [ListCleared] else [])\<rparr>"
  have fin: "(if e1 then bt4\<lparr>chunks_to_merge_vec := [], trace := trace bt4 @ [ListCleared]\<rparr> else bt4) = target"
    by (rule BalanceTransform.equality) (simp_all add: bt4 bt3_def target_def)
  have m: "marker_of bt4 pending = marker_of ?bt0 pending"
    by (simp add: marker_of_def bt4 bt3_def)
  have c4: "chunks_to_merge_vec bt4 = pending" by (simp add: bt4 bt3_def)
  have "r = Inr (if e1 then marker_of ?bt0 pending else chunk, target)"
    using run step g1 pne fin m c4
    by (cases e1) (simp_all add: convertToChunk_result bt3_def)
  then show ?thesis
    unfolding target_def e0 e1 pending_def by blast
qed

section \<open>Lemmas: NewSquashingTransform\<close>

lemma foldl_insert_chunk_column:
  "foldl (insert_chunk_column columns ts) acc [0..<n] =
     acc @ map (\<lambda>i. ColumnWithTypeAndName (columns ! i) (ts ! i) (ts ! i @ toString i)) [0..<n]"
  by (induction n) (simp_all add: insert_chunk_column_def Block_insert_last_def)

lemma column_at_insert_chunk_columns:
  "column_at (insert_chunk_columns [] c ts) i = chunk_column_at c i"
  by (simp add: insert_chunk_columns_def foldl_insert_chunk_column column_at_def
      chunk_column_at_def getNumColumns_def del: toString.simps)

lemma length_insert_chunk_columns:
  "length (insert_chunk_columns [] c ts) = getNumColumns c"
  by (simp add: insert_chunk_columns_def foldl_insert_chunk_column del: toString.simps)

lemma NewSquashingTransform_append_fits:
  assumes "getNumColumns c = 0 \<or> getNumColumns c = k"
    and "k \<le> length ts"
    and "accumulated_block sq = [] \<or> length (accumulated_block sq) = k"
  shows "\<exists>acc'. NewSquashingTransform_append sq c ts = Inr (sq\<lparr>accumulated_block := acc'\<rparr>)
           \<and> (acc' = [] \<or> length acc' = k)
           \<and> (\<forall>i. column_at acc' i = column_at (accumulated_block sq) i @ chunk_column_at c i)"
proof (cases "getNumColumns c = 0")
  case True
  then have "chunk_column_at c i = []" for i
    by (simp add: chunk_column_at_def getNumColumns_def)
  with True assms(3) show ?thesis
    by (auto simp: NewSquashingTransform_append_def intro!: exI [of _ "accumulated_block sq"])
next
  case False
  with assms(1) have k: "getNumColumns c = k" by simp
  show ?thesis
  proof (cases "accumulated_block sq = []")
    case True
    with False k assms(2) show ?thesis
      by (auto simp: NewSquashingTransform_append_def Block_bool_def column_at_insert_chunk_columns
          length_insert_chunk_columns column_at_def [of "[]"]
          intro!: exI [of _ "insert_chunk_columns [] c ts"])
  next
    case nonempty: False
    with assms(3) have len: "length (accumulated_block sq) = k" by simp
    have "column_at (append_columns (accumulated_block sq) (getColumns c)) i =
            column_at (accumulated_block sq) i @ chunk_column_at c i" for i
      using len k
      by (simp add: column_at_def chunk_column_at_def nth_append_columns getNumColumns_def)
    with False nonempty len k show ?thesis
      by (auto simp: NewSquashingTransform_append_def Block_bool_def
          intro!: exI [of _ "append_columns (accumulated_block sq) (getColumns c)"])
  qed
qed

lemma append_chunks_fits:
  assumes "\<forall>c \<in> set cs. getNumColumns c = 0 \<or> getNumColumns c = k"
    and "k \<le> length ts"
    and "accumulated_block sq = [] \<or> length (accumulated_block sq) = k"
  shows "\<exists>acc'. append_chunks sq cs ts = Inr (sq\<lparr>accumulated_block := acc'\<rparr>)
           \<and> (\<forall>i. column_at acc' i = column_at (accumulated_block sq) i @ chunks_column cs i)"
  using assms
proof (induction cs arbitrary: sq)
  case Nil
  then show ?case
    by (auto simp: chunks_column_def intro!: exI [of _ "accumulated_block sq"])
next
  case (Cons c cs)
  from NewSquashingTransform_append_fits [of c k ts sq] Cons.prems obtain acc1 where
    a: "NewSquashingTransform_append sq c ts = Inr (sq\<lparr>accumulated_block := acc1\<rparr>)"
    and l: "acc1 = [] \<or> length acc1 = k"
    and d: "\<And>i. column_at acc1 i = column_at (accumulated_block sq) i @ chunk_column_at c i"
    by auto
  from Cons.IH [of "sq\<lparr>accumulated_block := acc1\<rparr>"] Cons.prems l obtain acc2 where
    r: "append_chunks (sq\<lparr>accumulated_block := acc1\<rparr>) cs ts = Inr (sq\<lparr>accumulated_block := acc2\<rparr>)"
    and d2: "\<And>i. column_at acc2 i = column_at acc1 i @ chunks_column cs i"
    by auto
  show ?case
    using a r d d2 by (auto simp: chunks_column_def intro!: exI [of _ acc2])
qed

lemma NewSquashingTransform_add_marker:
  assumes "\<forall>c \<in> set cs. getNumColumns c = 0 \<or> getNumColumns c = k"
    and "k \<le> length ts"
    and "accumulated_block sq = [] \<or> length (accumulated_block sq) = k"
  shows "\<exists>out. NewSquashingTransform_add sq (MkChunk cols n (Some (ChunksToSquash cs ts)))
                  = Inr (out, sq\<lparr>accumulated_block := []\<rparr>)
           \<and> (\<forall>i. column_at out i = column_at (accumulated_block sq) i @ chunks_column cs i)"
proof -
  from append_chunks_fits [OF assms] obtain acc' where
    a: "append_chunks sq cs ts = Inr (sq\<lparr>accumulated_block := acc'\<rparr>)"
    and d: "\<forall>i. column_at acc' i = column_at (accumulated_block sq) i @ chunks_column cs i"
    by blast
  then show ?thesis
    by (simp add: NewSquashingTransform_add_def NewSquashingTransform_addImpl_def hasChunkInfo_def
        getInfoFromChunk_def)
qed

lemma NewSquashingTransform_add_plain:
  "NewSquashingTransform_add sq (MkChunk cols n None)
     = Inr (accumulated_block sq, sq\<lparr>accumulated_block := []\<rparr>)"
  by (simp add: NewSquashingTransform_add_def NewSquashingTransform_addImpl_def hasChunkInfo_def)

section \<open>Lemmas: one step of the pipeline\<close>




lemma marker_chunks_simps [simp]:
  "marker_chunks (MkChunk cols n None) = []"
  "marker_chunks (marker_of bt cs) = cs"
  by (simp_all add: marker_chunks_def marker_of_def)

lemma chunks_column_simps [simp]:
  "chunks_column [] i = []"
  "chunks_column (cs @ ds) i = chunks_column cs i @ chunks_column ds i"
  "chunks_column [c] i = chunk_column_at c i"
  by (simp_all add: chunks_column_def)


section \<open>Lemmas: the pipeline\<close>


lemma add_sentinel_clears:
  "BalanceTransform_add byteSize bt [] = Some (Inr (res, bt')) \<Longrightarrow> chunks_to_merge_vec bt' = []"
  by (auto simp: add_sentinel_result convertToChunk_result split: if_splits)






section \<open>The claims\<close>

lemmas squasher_eval =
  SquashingTransform_add_def SquashingTransform_addImpl_def Block_bool_def
  SquashingTransform_isEnoughSize_def SquashingTransform_append_def u64col_def squasher2_def
  byteSize8_def column_size_def isEnoughSize_def blocksHaveEqualStructure_def append_columns_def
  insertRangeFrom_at_def Block_getColumns_def word_le_nat_alt

text \<open>
  C7. When the incoming block alone is enough and nothing is accumulated,
  \<^verbatim>\<open>SquashingTransform::add\<close> returns the incoming block itself, with no column appended to
  anything, and the accumulated block stays empty.
\<close>

theorem add_fast_path:
  assumes "SquashingTransform_isEnoughSize byteSize st B = Inr True"
    and "accumulated_block st = []"
  shows "SquashingTransform_add byteSize st B = Inr (B, st)"
  using assms
  by (cases B) (simp_all add: SquashingTransform_add_def SquashingTransform_addImpl_def Block_bool_def)

theorem add_fast_path_witness:
  "SquashingTransform_isEnoughSize byteSize8 squasher2 [u64col [1, 2]] = Inr True
   \<and> accumulated_block squasher2 = []
   \<and> SquashingTransform_add byteSize8 squasher2 [u64col [1, 2]] = Inr ([u64col [1, 2]], squasher2)"
proof -
  have h1: "SquashingTransform_isEnoughSize byteSize8 squasher2 [u64col [1, 2]] = Inr True"
    by (simp add: squasher_eval)
  have h2: "accumulated_block squasher2 = []"
    by (simp add: squasher2_def)
  from add_fast_path [OF h1 h2] h1 h2 show ?thesis by simp
qed

text \<open>
  C1. A fresh \<^verbatim>\<open>SquashingTransform\<close> is fed the blocks \<open>Bs\<close>, well formed and of one
  structure, one at a time and then the empty block. Every call returns, and for every column
  the rows of the non-empty returned blocks, in order, are the rows of \<open>Bs\<close>, in order. So
  the returned blocks have as many rows in total as the blocks fed.
\<close>

theorem squashing_preserves_rows:
  assumes "\<forall>b \<in> set Bs. conforming h b" and "accumulated_block st = []"
  shows "\<exists>outs st'. SquashingTransform_feed byteSize st (Bs @ [[]]) = Inr (outs, st')
           \<and> (\<forall>i. rows_of_column (filter Block_bool outs) i = rows_of_column Bs i)
           \<and> (\<Sum>b \<leftarrow> filter Block_bool outs. length (column_at b 0))
               = (\<Sum>b \<leftarrow> Bs. length (column_at b 0))"
  using feed_preserves_rows [OF assms] .

theorem squashing_preserves_rows_witness:
  "conforming [u64col []] [u64col [1]] \<and> conforming [u64col []] [u64col [2]]
   \<and> conforming [u64col []] [u64col [4]] \<and> accumulated_block squasher2 = []
   \<and> (\<exists>outs st'.
         SquashingTransform_feed byteSize8 squasher2 ([[u64col [1]], [u64col [2]], [u64col [4]]] @ [[]])
           = Inr (outs, st')
         \<and> (\<forall>i. rows_of_column (filter Block_bool outs) i
                  = rows_of_column [[u64col [1]], [u64col [2]], [u64col [4]]] i)
         \<and> (\<Sum>b \<leftarrow> filter Block_bool outs. length (column_at b 0))
             = (\<Sum>b \<leftarrow> [[u64col [1]], [u64col [2]], [u64col [4]]]. length (column_at b 0)))"
proof -
  have c: "conforming [u64col []] [u64col [1]]" "conforming [u64col []] [u64col [2]]"
    "conforming [u64col []] [u64col [4]]"
    by (simp_all add: conforming_def well_formed_def blocksHaveEqualStructure_def u64col_def)
  then have h1: "\<forall>b \<in> set [[u64col [1]], [u64col [2]], [u64col [4]]]. conforming [u64col []] b"
    by simp
  have h2: "accumulated_block squasher2 = []"
    by (simp add: squasher2_def)
  from squashing_preserves_rows [OF h1 h2, of byteSize8] c h2 show ?thesis by blast
qed

text \<open>
  C2, as the code has it. A non-empty block returned by a call whose input is not the sentinel
  meets the thresholds, or it is the block accumulated before the call, handed out because
  the incoming block alone meets them (the incoming block takes its place). The source says
  of the latter: "Return accumulated data (maybe it has small size)".
\<close>

theorem add_output_enough_or_replaced:
  assumes "Block_bool B"
    and "SquashingTransform_add byteSize st B = Inr (out, st')"
    and "Block_bool out"
  shows "SquashingTransform_isEnoughSize byteSize st out = Inr True
       \<or> (out = accumulated_block st \<and> SquashingTransform_isEnoughSize byteSize st B = Inr True)"
  using addImpl_output [OF assms] .

theorem add_output_enough_or_replaced_witness:
  "Block_bool [u64col [2, 3]]
   \<and> SquashingTransform_add byteSize8 (squasher2\<lparr>accumulated_block := [u64col [1]]\<rparr>) [u64col [2, 3]]
       = Inr ([u64col [1]], squasher2\<lparr>accumulated_block := [u64col [2, 3]]\<rparr>)
   \<and> Block_bool [u64col [1]]
   \<and> [u64col [1]] = accumulated_block (squasher2\<lparr>accumulated_block := [u64col [1]]\<rparr>)
   \<and> SquashingTransform_isEnoughSize byteSize8 (squasher2\<lparr>accumulated_block := [u64col [1]]\<rparr>)
         [u64col [2, 3]] = Inr True"
proof -
  let ?st = "squasher2\<lparr>accumulated_block := [u64col [1]]\<rparr>"
  have h1: "Block_bool [u64col [2, 3]]" by (simp add: Block_bool_def)
  have h2: "SquashingTransform_add byteSize8 ?st [u64col [2, 3]]
       = Inr ([u64col [1]], squasher2\<lparr>accumulated_block := [u64col [2, 3]]\<rparr>)"
    by (simp add: squasher_eval)
  have h3: "Block_bool [u64col [1]]" by (simp add: Block_bool_def)
  have n: "SquashingTransform_isEnoughSize byteSize8 ?st [u64col [1]] \<noteq> Inr True"
    by (simp add: squasher_eval)
  from add_output_enough_or_replaced [OF h1 h2 h3] n h1 h2 h3 show ?thesis by simp
qed

text \<open>
  C2 as stated fails: with a threshold of two rows, a block of one row followed by a block of
  two rows makes the second call, not a sentinel call, return the block of one row.
\<close>

theorem add_output_below_threshold:
  "SquashingTransform_feed byteSize8 squasher2 [[u64col [1]], [u64col [2, 3]]]
     = Inr ([[], [u64col [1]]], squasher2\<lparr>accumulated_block := [u64col [2, 3]]\<rparr>)
   \<and> Block_bool [u64col [1]]
   \<and> SquashingTransform_isEnoughSize byteSize8 squasher2 [u64col [1]] = Inr False"
  by (simp add: squasher_eval)

lemma BalanceBlockTransform_gate_same:
  "BalanceBlockTransform_checkAndWaitMemoryAvailability = BalanceTransform_checkAndWaitMemoryAvailability"
  by (intro ext)
     (simp add: BalanceBlockTransform_checkAndWaitMemoryAvailability_def
        BalanceTransform_checkAndWaitMemoryAvailability_def)

text \<open>
  C4. For a ceiling that is not negative and a request below \<open>2 ^ 63\<close> bytes: when
  \<^verbatim>\<open>checkAndWaitMemoryAvailability\<close> (of either class) returns, the ceiling is 0 and nothing
  was read, or the usage it read last leaves more than the requested bytes under the ceiling.
  The loop compares with \<open>1 - usage\<close>, the ceiling having become a truth value, which leaves
  at most as much room as \<open>ceiling - usage\<close>.
\<close>

theorem gate_returns_only_with_room:
  assumes "BalanceTransform_checkAndWaitMemoryAvailability mt bytes t = Some t'
         \<or> BalanceBlockTransform_checkAndWaitMemoryAvailability mt bytes t = Some t'"
    and "0 \<le> sint (getHardLimit mt)"
    and "uint bytes < 2 ^ 63"
  shows "(getHardLimit mt = 0 \<and> t' = t)
       \<or> (t < t' \<and> uint bytes < sint (getHardLimit mt) - sint (get mt (t' - 1)))"
proof -
  from assms(1) have "BalanceTransform_checkAndWaitMemoryAvailability mt bytes t = Some t'"
    by (simp add: BalanceBlockTransform_gate_same)
  from BalanceTransform_gate [OF this assms(2,3)] show ?thesis .
qed

theorem gate_returns_only_with_room_witness:
  "BalanceTransform_checkAndWaitMemoryAvailability tracker_draining 10 0 = Some 3
   \<and> 0 \<le> sint (getHardLimit tracker_draining)
   \<and> uint (10 :: size_t) < 2 ^ 63
   \<and> uint (10 :: size_t) < sint (getHardLimit tracker_draining) - sint (get tracker_draining 2)"
proof -
  have h1: "BalanceTransform_checkAndWaitMemoryAvailability tracker_draining 10 0 = Some 3"
    by (simp add: BalanceTransform_checkAndWaitMemoryAvailability_def tracker_draining_def
        wait_for_memory.simps)
  have h2: "0 \<le> sint (getHardLimit tracker_draining)"
    by (simp add: tracker_draining_def)
  have h3: "uint (10 :: size_t) < 2 ^ 63" by simp
  have n: "getHardLimit tracker_draining \<noteq> 0" by (simp add: tracker_draining_def)
  from gate_returns_only_with_room [OF disjI1 [OF h1] h2 h3] n h1 h2 h3 show ?thesis by simp
qed




lemma isEnoughSize_chunks_eq:
  "BalanceTransform_isEnoughSize byteSize bt cs =
     (case BalanceTransform_checkAndWaitMemoryAvailability (memory_tracker bt)
             (total_bytes byteSize cs) (reads bt) of
        None \<Rightarrow> None
      | Some t \<Rightarrow>
          Some (pending_enough byteSize bt cs,
                bt\<lparr>reads := t, trace := trace bt @ [GateInvoked (total_bytes byteSize cs)]\<rparr>))"
  by (simp add: BalanceTransform_isEnoughSize_def pending_enough_def total_rows_def total_bytes_def
      split: prod.splits option.splits)

lemma add_nonsentinel_unfold:
  assumes "Chunk_ctor (Block_getColumns B) (Block_rows B) None = Inr chunk"
    and "Chunk_bool chunk"
  shows "BalanceTransform_add byteSize bt B =
     (case BalanceTransform_isEnoughSize byteSize (with_types bt B) (chunks_to_merge_vec bt) of
        None \<Rightarrow> None
      | Some (enough, bt1) \<Rightarrow>
          let bt2 = (if enough
                     then bt1\<lparr>chunks_to_merge_vec := [], trace := trace bt1 @ [ListCleared]\<rparr>
                     else bt1);
              bt3 = bt2\<lparr>chunks_to_merge_vec := chunks_to_merge_vec bt2 @ [chunk],
                         trace := trace bt2 @ [ListPushBack chunk]\<rparr>
          in
          case BalanceTransform_isEnoughSize byteSize bt3 (chunks_to_merge_vec bt3) of
            None \<Rightarrow> None
          | Some (True, bt4) \<Rightarrow> Some (BalanceTransform_convertToChunk bt4)
          | Some (False, bt4) \<Rightarrow> Some (Inr (chunk, bt4)))"
proof -
  have "chunks_to_merge_vec (with_types bt B) = chunks_to_merge_vec bt"
    by (simp add: with_types_def)
  then show ?thesis
    using assms
    by (simp add: BalanceTransform_add_def BalanceTransform_addImpl_def with_types_def Let_def
        Chunk_clone_def cong: option.case_cong prod.case_cong)
qed

lemma add_blocked_first:
  assumes "Chunk_ctor (Block_getColumns B) (Block_rows B) None = Inr chunk"
    and "Chunk_bool chunk"
    and "BalanceTransform_checkAndWaitMemoryAvailability (memory_tracker bt)
           (total_bytes byteSize (chunks_to_merge_vec bt)) (reads bt) = None"
  shows "BalanceTransform_add byteSize bt B = None"
proof -
  have "memory_tracker (with_types bt B) = memory_tracker bt" "reads (with_types bt B) = reads bt"
    by (simp_all add: with_types_def)
  with assms(3) show ?thesis
    by (simp add: add_nonsentinel_unfold [OF assms(1,2)] isEnoughSize_chunks_eq)
qed

lemma add_second_gate:
  assumes "Chunk_ctor (Block_getColumns B) (Block_rows B) None = Inr chunk"
    and "Chunk_bool chunk"
    and "BalanceTransform_checkAndWaitMemoryAvailability (memory_tracker bt)
           (total_bytes byteSize (chunks_to_merge_vec bt)) (reads bt) = Some t1"
  shows "BalanceTransform_add byteSize bt B = None \<longleftrightarrow>
         BalanceTransform_checkAndWaitMemoryAvailability (memory_tracker bt)
           (total_bytes byteSize (kept_pending byteSize bt) + Chunk_bytes byteSize chunk) t1 = None"
proof -
  have w: "memory_tracker (with_types bt B) = memory_tracker bt" "reads (with_types bt B) = reads bt"
    "trace (with_types bt B) = trace bt"
    "chunks_to_merge_vec (with_types bt B) = chunks_to_merge_vec bt"
    "pending_enough byteSize (with_types bt B) = pending_enough byteSize bt"
    by (simp_all add: with_types_def pending_enough_def fun_eq_iff)
  show ?thesis
  proof (cases "pending_enough byteSize bt (chunks_to_merge_vec bt)")
    case True
    with assms(3) w show ?thesis
      by (cases "BalanceTransform_checkAndWaitMemoryAvailability (memory_tracker bt)
           (total_bytes byteSize (kept_pending byteSize bt) + Chunk_bytes byteSize chunk) t1")
         (simp_all add: add_nonsentinel_unfold [OF assms(1,2)] isEnoughSize_chunks_eq Let_def
            kept_pending_def total_bytes_sum pending_enough_def split: bool.splits)
  next
    case False
    with assms(3) w show ?thesis
      by (cases "BalanceTransform_checkAndWaitMemoryAvailability (memory_tracker bt)
           (total_bytes byteSize (kept_pending byteSize bt) + Chunk_bytes byteSize chunk) t1")
         (simp_all add: add_nonsentinel_unfold [OF assms(1,2)] isEnoughSize_chunks_eq Let_def
            kept_pending_def total_bytes_sum pending_enough_def split: bool.splits)
  qed
qed




lemmas balancer_eval =
  BalanceTransform_add_def BalanceTransform_addImpl_def BalanceTransform_isEnoughSize_def
  BalanceTransform_checkAndWaitMemoryAvailability_def BalanceTransform_convertToChunk_def
  Chunk_ctor_def Chunk_bool_def hasRows_def hasColumns_def Chunk_clone_def Chunk_bytes_def
  Block_getColumns_def Block_rows_def Block_getDataTypes_def Block_cloneEmptyColumns_def
  balancer2_def tracker_unbounded_def u64col_def byteSize8_def column_size_def isEnoughSize_def
  word_le_nat_alt word_less_nat_alt Let_def


text \<open>
  The two sides agree on the rows, not on where the blocks are cut: with a threshold of two
  rows, blocks of one and of two rows leave the \<^verbatim>\<open>SquashingTransform\<close> as they came, and
  the pipeline as one block of three rows.
\<close>

lemma batches_can_differ:
  "SquashingTransform_feed byteSize8 squasher2 [[u64col [1]], [u64col [2, 3]], []]
     = Inr ([[], [u64col [1]], [u64col [2, 3]]], squasher2)
   \<and> (case balance_and_squash byteSize8 balancer2 squasher2 [[u64col [1]], [u64col [2, 3]], []] of
         Some (Inr (outs, bt', sq')) \<Rightarrow> map (\<lambda>b. map column b) outs
       | _ \<Rightarrow> [])
       = [[[1, 2, 3]]]"
  by (simp add: squasher_eval balancer_eval NewSquashingTransform_add_def
      NewSquashingTransform_addImpl_def NewSquashingTransform_append_def hasChunkInfo_def
      getInfoFromChunk_def getNumColumns_def insert_chunk_columns_def insert_chunk_column_def
      Block_insert_last_def del: toString.simps)

lemma add_trace:
  assumes "Chunk_ctor (Block_getColumns B) (Block_rows B) None = Inr chunk"
    and "Chunk_bool chunk"
    and "BalanceTransform_add byteSize bt B = Some (Inr (res, bt'))"
  shows "trace bt' =
      trace bt @ [GateInvoked (total_bytes byteSize (chunks_to_merge_vec bt))]
        @ (if pending_enough byteSize bt (chunks_to_merge_vec bt) then [ListCleared] else [])
        @ [ListPushBack chunk,
           GateInvoked (total_bytes byteSize (kept_pending byteSize bt) + Chunk_bytes byteSize chunk)]
        @ (if pending_enough byteSize bt (kept_pending byteSize bt @ [chunk]) then [ListCleared] else [])"
  using add_nonsentinel_result [OF assms]
  by (auto simp: kept_pending_def total_bytes_snoc)

text \<open>
  C5, as the code has it. Take a call of \<^verbatim>\<open>BalanceTransform::add\<close> with a block that is not
  the sentinel. The gate is entered first with the byte total of the pending list alone,
  without the candidate, at the state the call found; if it does not return, the call does
  not return. If it returns, the gate is entered a second time with the total of what was kept
  of the list plus the bytes of the candidate; if that does not return, the call does not
  return. If both return, the call returns, and what it did is, in order: the first gate, the
  clearing of the list if it was already enough, the push of the candidate, the second gate,
  and the clearing of the list if a marker is handed out.
\<close>

theorem add_enters_gate_twice:
  assumes "Chunk_ctor (Block_getColumns B) (Block_rows B) None = Inr chunk"
    and "Chunk_bool chunk"
  shows "case BalanceTransform_checkAndWaitMemoryAvailability (memory_tracker bt)
               (total_bytes byteSize (chunks_to_merge_vec bt)) (reads bt) of
           None \<Rightarrow> BalanceTransform_add byteSize bt B = None
         | Some t1 \<Rightarrow>
             (case BalanceTransform_checkAndWaitMemoryAvailability (memory_tracker bt)
                     (total_bytes byteSize (kept_pending byteSize bt) + Chunk_bytes byteSize chunk) t1 of
                None \<Rightarrow> BalanceTransform_add byteSize bt B = None
              | Some t2 \<Rightarrow>
                  (\<exists>res bt'. BalanceTransform_add byteSize bt B = Some (Inr (res, bt'))
                     \<and> trace bt' =
                         trace bt @ [GateInvoked (total_bytes byteSize (chunks_to_merge_vec bt))]
                           @ (if pending_enough byteSize bt (chunks_to_merge_vec bt)
                              then [ListCleared] else [])
                           @ [ListPushBack chunk,
                              GateInvoked (total_bytes byteSize (kept_pending byteSize bt)
                                             + Chunk_bytes byteSize chunk)]
                           @ (if pending_enough byteSize bt (kept_pending byteSize bt @ [chunk])
                              then [ListCleared] else [])))"
proof (cases "BalanceTransform_checkAndWaitMemoryAvailability (memory_tracker bt)
               (total_bytes byteSize (chunks_to_merge_vec bt)) (reads bt)")
  case None
  with add_blocked_first [OF assms this] show ?thesis by simp
next
  case g1: (Some t1)
  note iff = add_second_gate [OF assms g1]
  show ?thesis
  proof (cases "BalanceTransform_checkAndWaitMemoryAvailability (memory_tracker bt)
                  (total_bytes byteSize (kept_pending byteSize bt) + Chunk_bytes byteSize chunk) t1")
    case None
    with iff g1 show ?thesis by simp
  next
    case g2: (Some t2)
    with iff obtain r where r: "BalanceTransform_add byteSize bt B = Some r" by auto
    from add_nonsentinel_result [OF assms r] obtain res bt' where "r = Inr (res, bt')" by blast
    with r have run: "BalanceTransform_add byteSize bt B = Some (Inr (res, bt'))" by simp
    from add_trace [OF assms run] run g1 g2 show ?thesis by simp
  qed
qed

text \<open>
  The witness is the second call on a balancer whose tracker lets it wait: the first call, on
  a block of one row, leaves that block pending; the second call enters the gate with the 8
  bytes pending and then with 16.
\<close>

theorem add_enters_gate_twice_witness:
  "BalanceTransform_add byteSize8 (balancer2\<lparr>memory_tracker := tracker_draining\<rparr>) [u64col [1]]
     = Some (Inr (MkChunk [[1]] 1 None,
          balancer2\<lparr>memory_tracker := tracker_draining,
            chunks_to_merge_vec := [MkChunk [[1]] 1 None], data_types := [''UInt64''], reads := 4,
            trace := [GateInvoked 0, ListPushBack (MkChunk [[1]] 1 None), GateInvoked 8]\<rparr>))
   \<and> Chunk_ctor (Block_getColumns [u64col [2]]) (Block_rows [u64col [2]]) None
       = Inr (MkChunk [[2]] 1 None)
   \<and> Chunk_bool (MkChunk [[2 :: nat]] 1 None)
   \<and> BalanceTransform_checkAndWaitMemoryAvailability tracker_draining 8 4 = Some 5
   \<and> BalanceTransform_checkAndWaitMemoryAvailability tracker_draining 16 5 = Some 6
   \<and> (\<exists>res bt'.
         BalanceTransform_add byteSize8
           (balancer2\<lparr>memory_tracker := tracker_draining,
              chunks_to_merge_vec := [MkChunk [[1]] 1 None], data_types := [''UInt64''], reads := 4,
              trace := [GateInvoked 0, ListPushBack (MkChunk [[1]] 1 None), GateInvoked 8]\<rparr>)
           [u64col [2]] = Some (Inr (res, bt'))
       \<and> trace bt' = [GateInvoked 0, ListPushBack (MkChunk [[1]] 1 None), GateInvoked 8,
                       GateInvoked 8, ListPushBack (MkChunk [[2]] 1 None), GateInvoked 16,
                       ListCleared])"
proof -
  let ?bt = "balancer2\<lparr>memory_tracker := tracker_draining,
              chunks_to_merge_vec := [MkChunk [[1]] 1 None], data_types := [''UInt64''], reads := 4,
              trace := [GateInvoked 0, ListPushBack (MkChunk [[1]] 1 None), GateInvoked 8]\<rparr>"
  have "BalanceTransform_checkAndWaitMemoryAvailability tracker_draining 0 0 = Some 3"
    "BalanceTransform_checkAndWaitMemoryAvailability tracker_draining 8 3 = Some 4"
    by code_simp+
  then have h0: "BalanceTransform_add byteSize8 (balancer2\<lparr>memory_tracker := tracker_draining\<rparr>)
              [u64col [1]] = Some (Inr (MkChunk [[1]] 1 None, ?bt))"
    by (simp add: balancer_eval del: BalanceTransform_checkAndWaitMemoryAvailability_def)
  have h1: "Chunk_ctor (Block_getColumns [u64col [2]]) (Block_rows [u64col [2]]) None
              = Inr (MkChunk [[2]] 1 None)"
    by (simp add: balancer_eval)
  have h2: "Chunk_bool (MkChunk [[2 :: nat]] 1 None)"
    by (simp add: balancer_eval)
  have g1: "BalanceTransform_checkAndWaitMemoryAvailability tracker_draining 8 4 = Some 5"
    by (simp add: BalanceTransform_checkAndWaitMemoryAvailability_def tracker_draining_def
        wait_for_memory.simps)
  have g2: "BalanceTransform_checkAndWaitMemoryAvailability tracker_draining 16 5 = Some 6"
    by (simp add: BalanceTransform_checkAndWaitMemoryAvailability_def tracker_draining_def
        wait_for_memory.simps)
  have v: "total_bytes byteSize8 (chunks_to_merge_vec ?bt) = 8"
    "kept_pending byteSize8 ?bt = [MkChunk [[1]] 1 None]"
    "Chunk_bytes byteSize8 (MkChunk [[2]] 1 None) = 8"
    "\<not> pending_enough byteSize8 ?bt (chunks_to_merge_vec ?bt)"
    "pending_enough byteSize8 ?bt ([MkChunk [[1]] 1 None] @ [MkChunk [[2]] 1 None])"
    by (simp_all add: total_bytes_def total_rows_def kept_pending_def pending_enough_def
        Chunk_bytes_def byteSize8_def column_size_def isEnoughSize_def balancer2_def
        word_le_nat_alt)
  have m: "memory_tracker ?bt = tracker_draining" "reads ?bt = 4"
    "trace ?bt = [GateInvoked 0, ListPushBack (MkChunk [[1]] 1 None), GateInvoked 8]"
    by simp_all
  from add_enters_gate_twice [OF h1 h2, where bt = ?bt and byteSize = byteSize8]
  have "\<exists>res bt'. BalanceTransform_add byteSize8 ?bt [u64col [2]] = Some (Inr (res, bt'))
       \<and> trace bt' = [GateInvoked 0, ListPushBack (MkChunk [[1]] 1 None), GateInvoked 8,
                       GateInvoked 8, ListPushBack (MkChunk [[2]] 1 None), GateInvoked 16,
                       ListCleared]"
    unfolding v m using g1 g2 v by simp
  with h0 h1 h2 g1 g2 show ?thesis by blast
qed

text \<open>
  C5 as stated fails: with a threshold of two rows, two blocks of one row and 8 bytes each are
  fed to a fresh balancer. In the second call the gate is entered with 8 bytes, the pending
  total without the candidate, before the list changes, and with the cumulative 16 bytes only
  after the candidate has been pushed.
\<close>

theorem add_gate_before_push_counterexample:
  "(case BalanceTransform_feed byteSize8 balancer2 [[u64col [1]], [u64col [2]]] of
      Some (Inr (chunks, bt')) \<Rightarrow> trace bt'
    | _ \<Rightarrow> [])
   = [GateInvoked 0, ListPushBack (MkChunk [[1]] 1 None), GateInvoked 8,
      GateInvoked 8, ListPushBack (MkChunk [[2]] 1 None), GateInvoked 16, ListCleared]"
  by (simp add: balancer_eval)


lemma add_pending_after:
  assumes "BalanceTransform_add byteSize bt B = Some (Inr (res, bt'))"
  shows "chunks_to_merge_vec bt' = []
       \<or> \<not> pending_enough byteSize bt' (chunks_to_merge_vec bt')"
proof (cases "Chunk_ctor (Block_getColumns B) (Block_rows B) None")
  case (Inl e)
  with assms show ?thesis by (simp add: BalanceTransform_add_def BalanceTransform_addImpl_def)
next
  case (Inr chunk)
  show ?thesis
  proof (cases "Chunk_bool chunk")
    case False
    with Inr assms show ?thesis
      by (auto simp: BalanceTransform_add_def BalanceTransform_addImpl_def Let_def
          convertToChunk_result split: if_splits)
  next
    case True
    from add_nonsentinel_result [OF Inr True assms] show ?thesis
      by (auto simp: pending_enough_def with_types_def split: if_splits)
  qed
qed

text \<open>
  C6, as the code has it. After any call of \<^verbatim>\<open>BalanceTransform::add\<close> that returns a chunk,
  the pending list is empty or its totals are below the thresholds. After any call of
  \<^verbatim>\<open>SquashingTransform::add\<close> that returns, the accumulated block is empty, or below the
  thresholds, or it is the incoming block, itself enough, that took the place of a non-empty
  accumulated block returned by this call.
\<close>

theorem buffer_between_calls:
  "(SquashingTransform_add byteSize st B = Inr (out, st') \<longrightarrow>
      accumulated_block st' = []
    \<or> SquashingTransform_isEnoughSize byteSize st' (accumulated_block st') = Inr False
    \<or> (accumulated_block st' = B \<and> accumulated_block st \<noteq> []
          \<and> SquashingTransform_isEnoughSize byteSize st B = Inr True))
   \<and> (BalanceTransform_add byteSize bt B' = Some (Inr (res, bt')) \<longrightarrow>
      chunks_to_merge_vec bt' = []
    \<or> \<not> pending_enough byteSize bt' (chunks_to_merge_vec bt'))"
  using add_retained [of byteSize st B out st'] add_pending_after [of byteSize bt B' res bt']
  by blast

theorem buffer_between_calls_witness:
  "SquashingTransform_add byteSize8 squasher2 [u64col [1]]
     = Inr ([], squasher2\<lparr>accumulated_block := [u64col [1]]\<rparr>)
   \<and> SquashingTransform_isEnoughSize byteSize8 (squasher2\<lparr>accumulated_block := [u64col [1]]\<rparr>)
        (accumulated_block (squasher2\<lparr>accumulated_block := [u64col [1]]\<rparr>)) = Inr False
   \<and> BalanceTransform_add byteSize8 balancer2 [u64col [1]]
       = Some (Inr (MkChunk [[1]] 1 None,
            balancer2\<lparr>chunks_to_merge_vec := [MkChunk [[1]] 1 None], data_types := [''UInt64''],
              trace := [GateInvoked 0, ListPushBack (MkChunk [[1]] 1 None), GateInvoked 8]\<rparr>))
   \<and> \<not> pending_enough byteSize8
         (balancer2\<lparr>chunks_to_merge_vec := [MkChunk [[1]] 1 None], data_types := [''UInt64''],
              trace := [GateInvoked 0, ListPushBack (MkChunk [[1]] 1 None), GateInvoked 8]\<rparr>)
         (chunks_to_merge_vec
           (balancer2\<lparr>chunks_to_merge_vec := [MkChunk [[1]] 1 None], data_types := [''UInt64''],
              trace := [GateInvoked 0, ListPushBack (MkChunk [[1]] 1 None), GateInvoked 8]\<rparr>))"
proof -
  let ?st' = "squasher2\<lparr>accumulated_block := [u64col [1]]\<rparr>"
  let ?bt' = "balancer2\<lparr>chunks_to_merge_vec := [MkChunk [[1]] 1 None], data_types := [''UInt64''],
              trace := [GateInvoked 0, ListPushBack (MkChunk [[1]] 1 None), GateInvoked 8]\<rparr>"
  have h1: "SquashingTransform_add byteSize8 squasher2 [u64col [1]] = Inr ([], ?st')"
    by (simp add: squasher_eval)
  have h2: "BalanceTransform_add byteSize8 balancer2 [u64col [1]]
       = Some (Inr (MkChunk [[1]] 1 None, ?bt'))"
    by (simp add: balancer_eval)
  have n1: "accumulated_block ?st' \<noteq> []" "accumulated_block squasher2 = []"
    by (simp_all add: squasher2_def)
  have n2: "chunks_to_merge_vec ?bt' \<noteq> []" by simp
  from buffer_between_calls
    [of byteSize8 squasher2 "[u64col [1]]" "[]" ?st' balancer2 "[u64col [1]]" "MkChunk [[1]] 1 None" ?bt']
    h1 h2 n1 n2
  show ?thesis by simp
qed

text \<open>
  C6 as stated fails: with a threshold of two rows, a block of one row and then a block of two
  rows leave the block of two rows accumulated after the second call, and it meets the
  threshold.
\<close>

theorem buffer_keeps_enough_block:
  "(case SquashingTransform_feed byteSize8 squasher2 [[u64col [1]], [u64col [2, 3]]] of
      Inr (outs, st') \<Rightarrow>
        (accumulated_block st', Block_rows (accumulated_block st'), min_block_size_rows st',
         SquashingTransform_isEnoughSize byteSize8 st' (accumulated_block st'))
    | Inl e \<Rightarrow> ([], 0, 0, Inl e))
   = ([u64col [2, 3]], 2, 2, Inr True)"
  by (simp add: squasher_eval Block_rows_def)


lemma Chunk_ctor_mismatch:
  assumes "i < j" "j < length B"
    "column_size (column (B ! j)) \<noteq> column_size (column (B ! i))"
  shows "Chunk_ctor (Block_getColumns B) (Block_rows B) None = Inl LOGICAL_ERROR"
proof -
  have "column (B ! i) \<in> set (Block_getColumns B)" "column (B ! j) \<in> set (Block_getColumns B)"
    using assms(1,2) by (simp_all add: Block_getColumns_def)
  with assms(3) have "\<not> (\<forall>c \<in> set (Block_getColumns B). column_size c = Block_rows B)"
    by metis
  then show ?thesis by (simp add: Chunk_ctor_def)
qed

lemma add_refuses_mismatch:
  assumes "i < j" "j < length B"
    "column_size (column (B ! j)) \<noteq> column_size (column (B ! i))"
  shows "BalanceTransform_add byteSize bt B = Some (Inl LOGICAL_ERROR)"
  using Chunk_ctor_mismatch [OF assms]
  by (simp add: BalanceTransform_add_def BalanceTransform_addImpl_def)

text \<open>
  C8, as the code has it. Take a block in which a column at a later position differs in size
  from a column at an earlier one. \<^verbatim>\<open>SquashingTransform::add\<close> fails with
  \<^verbatim>\<open>SIZES_OF_COLUMNS_DOESNT_MATCH\<close>, before the thresholds are looked at, when the earlier
  column is not empty. \<^verbatim>\<open>BalanceTransform::add\<close> does not raise that error for it: its
  \<^verbatim>\<open>isEnoughSize\<close> adds up rows and bytes of whole chunks and compares no column sizes; the
  block is refused earlier, when the chunk is built from it, before the gate and the
  thresholds.
\<close>

theorem mismatch_rejected:
  assumes "i < j" and "j < length B"
    and "column_size (column (B ! j)) \<noteq> column_size (column (B ! i))"
  shows "(column_size (column (B ! i)) \<noteq> 0 \<longrightarrow>
            SquashingTransform_add byteSize st B = Inl SIZES_OF_COLUMNS_DOESNT_MATCH)
       \<and> BalanceTransform_add byteSize bt B = Some (Inl LOGICAL_ERROR)"
  using add_rejects_mismatch [OF assms(1,2) _ assms(3)] add_refuses_mismatch [OF assms]
  by blast

theorem mismatch_rejected_witness:
  "(0 :: nat) < 1 \<and> 1 < length [u64col [1], u64col [2, 3]]
   \<and> column_size (column ([u64col [1], u64col [2, 3]] ! 1))
       \<noteq> column_size (column ([u64col [1], u64col [2, 3]] ! 0))
   \<and> column_size (column ([u64col [1], u64col [2, 3]] ! 0)) \<noteq> 0
   \<and> SquashingTransform_add byteSize8 squasher2 [u64col [1], u64col [2, 3]]
       = Inl SIZES_OF_COLUMNS_DOESNT_MATCH
   \<and> BalanceTransform_add byteSize8 balancer2 [u64col [1], u64col [2, 3]] = Some (Inl LOGICAL_ERROR)"
proof -
  let ?B = "[u64col [1], u64col [2, 3]]"
  have h1: "(0 :: nat) < 1" by simp
  have h2: "1 < length ?B" by simp
  have h3: "column_size (column (?B ! 1)) \<noteq> column_size (column (?B ! 0))"
    by (simp add: u64col_def column_size_def)
  have h4: "column_size (column (?B ! 0)) \<noteq> 0"
    by (simp add: u64col_def column_size_def)
  from mismatch_rejected [OF h1 h2 h3, of byteSize8 squasher2 balancer2] h1 h2 h3 h4
  show ?thesis by blast
qed

text \<open>
  C8 as stated fails. A block whose first column is empty and whose second column has one
  value is accepted by \<^verbatim>\<open>SquashingTransform::add\<close> (the loop takes the first non-zero size
  for the row count), and a block with columns of one and two values fed to
  \<^verbatim>\<open>BalanceTransform::add\<close> does not raise \<^verbatim>\<open>SIZES_OF_COLUMNS_DOESNT_MATCH\<close>.
\<close>

theorem mismatch_not_detected:
  "length (column ([u64col [], u64col [7]] ! 0)) \<noteq> length (column ([u64col [], u64col [7]] ! 1))
   \<and> SquashingTransform_add byteSize8 squasher2 [u64col [], u64col [7]]
       = Inr ([], squasher2\<lparr>accumulated_block := [u64col [], u64col [7]]\<rparr>)
   \<and> BalanceTransform_add byteSize8 balancer2 [u64col [1], u64col [2, 3]]
       \<noteq> Some (Inl SIZES_OF_COLUMNS_DOESNT_MATCH)"
  by (simp add: squasher_eval balancer_eval)

text \<open>
  C9, as the code has it. Let the raw chunks of a \<^verbatim>\<open>ChunksToSquash\<close> marker have \<open>k\<close> columns
  each or none, with at least \<open>k\<close> data types, and let the buffer be empty or of \<open>k\<close>
  columns. Then \<^verbatim>\<open>NewSquashingTransform::add\<close> returns, for every column, the rows of the
  buffer followed by the rows of the raw chunks in order, whatever the thresholds. For a chunk
  with no info at all it returns the buffer as it is. Either way the buffer is empty
  afterwards.
\<close>

theorem deferred_add_flushes:
  assumes "\<forall>c \<in> set cs. getNumColumns c = 0 \<or> getNumColumns c = k"
    and "k \<le> length ts"
    and "accumulated_block sq = [] \<or> length (accumulated_block sq) = k"
  shows "(\<exists>out. NewSquashingTransform_add sq (MkChunk cols n (Some (ChunksToSquash cs ts)))
                  = Inr (out, sq\<lparr>accumulated_block := []\<rparr>)
           \<and> (\<forall>i. column_at out i = column_at (accumulated_block sq) i @ chunks_column cs i))
       \<and> NewSquashingTransform_add sq (MkChunk cols n None)
            = Inr (accumulated_block sq, sq\<lparr>accumulated_block := []\<rparr>)"
  using NewSquashingTransform_add_marker [OF assms] NewSquashingTransform_add_plain
  by blast

theorem deferred_add_flushes_witness:
  "(getNumColumns (MkChunk [[2 :: nat]] 1 None) = 1 \<and> getNumColumns (MkChunk [[3 :: nat]] 1 None) = 1)
   \<and> (1 :: nat) \<le> length [''UInt64'']
   \<and> length (accumulated_block (squasher2\<lparr>accumulated_block := [u64col [1]]\<rparr>)) = 1
   \<and> (\<exists>out. NewSquashingTransform_add (squasher2\<lparr>accumulated_block := [u64col [1]]\<rparr>)
                (MkChunk [[]] 0 (Some (ChunksToSquash [MkChunk [[2]] 1 None, MkChunk [[3]] 1 None]
                                        [''UInt64''])))
              = Inr (out, squasher2)
           \<and> column_at out 0 = [1, 2, 3])
   \<and> NewSquashingTransform_add (squasher2\<lparr>accumulated_block := [u64col [1]]\<rparr>) (MkChunk [[]] 0 None)
       = Inr ([u64col [1]], squasher2)"
proof -
  let ?sq = "squasher2\<lparr>accumulated_block := [u64col [1]]\<rparr>"
  let ?cs = "[MkChunk [[2 :: nat]] 1 None, MkChunk [[3]] 1 None]"
  have g: "getNumColumns (MkChunk [[2 :: nat]] 1 None) = 1" "getNumColumns (MkChunk [[3 :: nat]] 1 None) = 1"
    by (simp_all add: getNumColumns_def)
  then have h1: "\<forall>c \<in> set ?cs. getNumColumns c = 0 \<or> getNumColumns c = 1" by simp
  have h2: "(1 :: nat) \<le> length [''UInt64'']" by simp
  have l: "length (accumulated_block ?sq) = 1" by simp
  then have h3: "accumulated_block ?sq = [] \<or> length (accumulated_block ?sq) = 1" by simp
  have e: "?sq\<lparr>accumulated_block := []\<rparr> = squasher2" by (simp add: squasher2_def)
  have c: "column_at (accumulated_block ?sq) 0 @ chunks_column ?cs 0 = [1, 2, 3]"
    by (simp add: column_at_def chunks_column_def chunk_column_at_def u64col_def)
  have a: "accumulated_block ?sq = [u64col [1]]" by simp
  from deferred_add_flushes [OF h1 h2 h3, of "[[]]" 0] obtain out where
    "NewSquashingTransform_add ?sq (MkChunk [[]] 0 (Some (ChunksToSquash ?cs [''UInt64''])))
        = Inr (out, squasher2)"
    "column_at out 0 = [1, 2, 3]"
    "NewSquashingTransform_add ?sq (MkChunk [[]] 0 None) = Inr ([u64col [1]], squasher2)"
    unfolding e a using c by (metis a)
  with g h2 l show ?thesis by blast
qed

text \<open>
  C9 as stated fails: \<^verbatim>\<open>addImpl\<close> asks whether the chunk has an info, not whether the info is
  a \<^verbatim>\<open>ChunksToSquash\<close>. For a chunk that carries another info, \<^verbatim>\<open>getInfoFromChunk\<close> returns
  the null pointer, and the call dereferences it instead of returning the accumulated data.
\<close>

theorem deferred_add_foreign_info:
  "getInfoFromChunk (MkChunk [] 0 (Some (BlocksToSquash [[u64col [1]]]))) = None
   \<and> NewSquashingTransform_add squasher2 (MkChunk [] 0 (Some (BlocksToSquash [[u64col [1]]])))
       = Inl NULL_POINTER_DEREFERENCE"
  by (simp add: NewSquashingTransform_add_def NewSquashingTransform_addImpl_def hasChunkInfo_def
      getInfoFromChunk_def)


lemma add_marker_shape:
  assumes "BalanceTransform_add byteSize bt B = Some (Inr (res, bt'))"
    and "hasChunkInfo res"
  shows "getNumRows res = 0
       \<and> (\<exists>cs ts. getChunkInfo res = Some (ChunksToSquash cs ts) \<and> cs \<noteq> [])"
proof (cases "Chunk_ctor (Block_getColumns B) (Block_rows B) None")
  case (Inl e)
  with assms show ?thesis by (simp add: BalanceTransform_add_def BalanceTransform_addImpl_def)
next
  case (Inr chunk)
  then have ni: "getChunkInfo chunk = None"
    by (auto simp: Chunk_ctor_def split: if_splits)
  show ?thesis
  proof (cases "Chunk_bool chunk")
    case False
    with Inr assms show ?thesis
      by (auto simp: BalanceTransform_add_def BalanceTransform_addImpl_def Let_def
          convertToChunk_result marker_of_def hasChunkInfo_def split: if_splits)
  next
    case True
    from add_nonsentinel_result [OF Inr True assms(1)] assms(2) ni show ?thesis
      by (auto simp: marker_of_def hasChunkInfo_def split: if_splits)
  qed
qed

text \<open>
  C10. A chunk returned by \<^verbatim>\<open>BalanceTransform::add\<close> that carries an info has zero rows, and
  the info is a \<^verbatim>\<open>ChunksToSquash\<close> with a non-empty list of chunks. When the pending list is
  empty at the sentinel call, the call returns the plain empty chunk, with no info, and leaves
  the object as it was.
\<close>

theorem marker_has_chunks:
  "(BalanceTransform_add byteSize bt B = Some (Inr (res, bt')) \<and> hasChunkInfo res \<longrightarrow>
      getNumRows res = 0
    \<and> (\<exists>cs ts. getChunkInfo res = Some (ChunksToSquash cs ts) \<and> cs \<noteq> []))
   \<and> (chunks_to_merge_vec bt = [] \<longrightarrow>
        BalanceTransform_add byteSize bt [] = Some (Inr (MkChunk [] 0 None, bt)))"
  using add_marker_shape [of byteSize bt B res bt']
  by (auto simp: add_sentinel_result convertToChunk_result)

theorem marker_has_chunks_witness:
  "BalanceTransform_add byteSize8
       (balancer2\<lparr>chunks_to_merge_vec := [MkChunk [[1]] 1 None], data_types := [''UInt64''],
          trace := [GateInvoked 0, ListPushBack (MkChunk [[1]] 1 None), GateInvoked 8]\<rparr>) []
     = Some (Inr (MkChunk [[]] 0 (Some (ChunksToSquash [MkChunk [[1]] 1 None] [''UInt64''])),
          balancer2\<lparr>data_types := [''UInt64''],
            trace := [GateInvoked 0, ListPushBack (MkChunk [[1]] 1 None), GateInvoked 8, ListCleared]\<rparr>))
   \<and> hasChunkInfo (MkChunk [[]] 0 (Some (ChunksToSquash [MkChunk [[1 :: nat]] 1 None] [''UInt64''])))
   \<and> getNumRows (MkChunk [[]] 0 (Some (ChunksToSquash [MkChunk [[1 :: nat]] 1 None] [''UInt64'']))) = 0
   \<and> (\<exists>cs ts. getChunkInfo (MkChunk [[]] 0 (Some (ChunksToSquash [MkChunk [[1 :: nat]] 1 None] [''UInt64''])))
                 = Some (ChunksToSquash cs ts) \<and> cs \<noteq> [])
   \<and> chunks_to_merge_vec balancer2 = []
   \<and> BalanceTransform_add byteSize8 balancer2 [] = Some (Inr (MkChunk [] 0 None, balancer2))"
proof -
  let ?bt = "balancer2\<lparr>chunks_to_merge_vec := [MkChunk [[1]] 1 None], data_types := [''UInt64''],
          trace := [GateInvoked 0, ListPushBack (MkChunk [[1]] 1 None), GateInvoked 8]\<rparr>"
  let ?bt' = "balancer2\<lparr>data_types := [''UInt64''],
            trace := [GateInvoked 0, ListPushBack (MkChunk [[1]] 1 None), GateInvoked 8, ListCleared]\<rparr>"
  let ?res = "MkChunk [[]] 0 (Some (ChunksToSquash [MkChunk [[1 :: nat]] 1 None] [''UInt64'']))"
  have h1: "BalanceTransform_add byteSize8 ?bt [] = Some (Inr (?res, ?bt'))"
    by (simp add: balancer_eval)
  have h2: "hasChunkInfo ?res" by (simp add: hasChunkInfo_def)
  have h3: "chunks_to_merge_vec balancer2 = []" by (simp add: balancer2_def)
  from marker_has_chunks [of byteSize8 ?bt "[]" ?res ?bt'] h1 h2
  have a: "getNumRows ?res = 0 \<and> (\<exists>cs ts. getChunkInfo ?res = Some (ChunksToSquash cs ts) \<and> cs \<noteq> [])"
    by blast
  from marker_has_chunks [of byteSize8 balancer2] h3
  have b: "BalanceTransform_add byteSize8 balancer2 [] = Some (Inr (MkChunk [] 0 None, balancer2))"
    by blast
  from a b h1 h2 h3 show ?thesis by blast
qed

end
